theory Spec2Isabelle
  imports Main "HOL-Library.Char_ord" "HOL-Library.List_Lexorder" "HOL-Library.Sublist"
begin

section \<open>Credentials and session store (core.py, config.py)\<close>

text \<open>
  \<^verbatim>\<open>Config\<close> keeps one JSON session file with the keys \<^verbatim>\<open>token\<close>, \<^verbatim>\<open>cookie\<close> and
  \<^verbatim>\<open>login_check\<close>; a missing key reads as \<^verbatim>\<open>None\<close>, and \<^verbatim>\<open>clear_credentials\<close> removes
  the file. \<^verbatim>\<open>FacebookAPI\<close> holds \<^verbatim>\<open>_token\<close> and \<^verbatim>\<open>_cookie\<close> (both \<^verbatim>\<open>Optional[str]\<close>) next
  to that store. Writing the session file is taken to succeed.
\<close>

record session =
  s_token :: "string option"
  s_cookie :: "string option"
  s_login_check :: "string list option"

definition empty_session :: session where
  "empty_session = \<lparr>s_token = None, s_cookie = None, s_login_check = None\<rparr>"

record api =
  a_token :: "string option"
  a_cookie :: "string option"
  a_store :: session

text \<open>Python truthiness of an \<^verbatim>\<open>Optional[str]\<close>: \<^verbatim>\<open>None\<close> and the empty string are false.\<close>

definition truthy :: "string option \<Rightarrow> bool" where
  "truthy v = (case v of None \<Rightarrow> False | Some s \<Rightarrow> s \<noteq> [])"

definition is_logged_in :: "api \<Rightarrow> bool" where
  "is_logged_in a = (truthy (a_token a) \<and> truthy (a_cookie a))"

definition load_session :: "session \<Rightarrow> api" where
  "load_session s = \<lparr>a_token = s_token s, a_cookie = s_cookie s, a_store = s\<rparr>"

definition set_token :: "string \<Rightarrow> api \<Rightarrow> api" where
  "set_token v a = a\<lparr>a_token := Some v, a_store := (a_store a)\<lparr>s_token := Some v\<rparr>\<rparr>"

definition set_cookie :: "string \<Rightarrow> api \<Rightarrow> api" where
  "set_cookie v a = a\<lparr>a_cookie := Some v, a_store := (a_store a)\<lparr>s_cookie := Some v\<rparr>\<rparr>"

definition save_login_check :: "string list \<Rightarrow> api \<Rightarrow> api" where
  "save_login_check ids a = a\<lparr>a_store := (a_store a)\<lparr>s_login_check := Some ids\<rparr>\<rparr>"

definition logout :: "api \<Rightarrow> api" where
  "logout a = a\<lparr>a_token := None, a_cookie := None, a_store := empty_session\<rparr>"

section \<open>The friends crawl (FacebookAPI.dump\_friends)\<close>

text \<open>
  A friends response is the JSON object \<^verbatim>\<open>{friends: {data: [{id, name}]}}\<close> or one with an
  \<^verbatim>\<open>error\<close> key; \<^verbatim>\<open>_make_request\<close> returns \<^verbatim>\<open>None\<close> for a status other than 200 and for
  every exception. A friend record may lack \<^verbatim>\<open>id\<close> or \<^verbatim>\<open>name\<close>. A response without
  \<^verbatim>\<open>friends.data\<close> has the empty list.
\<close>

record friend =
  f_id :: "string option"
  f_name :: "string option"

record response =
  has_error :: bool
  friends_data :: "friend list"

text \<open>
  The network answers the \<open>k\<close>-th friends request of a call (counted from 0) for a given
  identifier; the same identifier may be answered differently at different times.
  \<^verbatim>\<open>asyncio.gather\<close> returns the responses in the order of the task list.
\<close>

type_synonym network = "nat \<Rightarrow> string \<Rightarrow> response option"

definition gather :: "network \<Rightarrow> nat \<Rightarrow> string list \<Rightarrow> response option list" where
  "gather net k uids = map (\<lambda>(i, u). net i u) (zip [k ..< k + length uids] uids)"

subsection \<open>Phase 1: the candidate identifiers\<close>

fun collect_ids :: "friend list \<Rightarrow> string list \<Rightarrow> string list" where
  "collect_ids [] all_friend_ids = all_friend_ids"
| "collect_ids (f # fs) all_friend_ids =
     (case f_id f of
        None \<Rightarrow> collect_ids fs all_friend_ids
      | Some friend_id \<Rightarrow>
          if friend_id \<noteq> [] \<and> friend_id \<notin> set all_friend_ids
          then collect_ids fs (all_friend_ids @ [friend_id])
          else collect_ids fs all_friend_ids)"

fun phase1 :: "response option list \<Rightarrow> string list \<Rightarrow> string list" where
  "phase1 [] all_friend_ids = all_friend_ids"
| "phase1 (None # rs) all_friend_ids = phase1 rs all_friend_ids"
| "phase1 (Some r # rs) all_friend_ids =
     (if \<not> has_error r then phase1 rs (collect_ids (friends_data r) all_friend_ids)
      else phase1 rs all_friend_ids)"

text \<open>\<^verbatim>\<open>sorted(set(all_friend_ids), reverse=True)\<close>: Python compares strings by code point,
  which is the lexicographic order of the characters.\<close>

definition sorted_desc :: "string list \<Rightarrow> string list" where
  "sorted_desc xs = rev (sort (remdups xs))"

subsection \<open>Phase 2: formatting, routing, deduplication\<close>

definition format_item :: "string \<Rightarrow> string option \<Rightarrow> string" where
  "format_item friend_id name =
     friend_id @ ''|'' @ (case name of None \<Rightarrow> ''Unknown'' | Some n \<Rightarrow> n)"

text \<open>\<^verbatim>\<open>if sep_prefixes:\<close> is false for \<^verbatim>\<open>None\<close> and for the empty list.\<close>

definition filter_on :: "string list option \<Rightarrow> bool" where
  "filter_on sep_prefixes = (case sep_prefixes of None \<Rightarrow> False | Some ps \<Rightarrow> ps \<noteq> [])"

definition starts_with_any :: "string list option \<Rightarrow> string \<Rightarrow> bool" where
  "starts_with_any sep_prefixes friend_id =
     (case sep_prefixes of None \<Rightarrow> False | Some ps \<Rightarrow> list_ex (\<lambda>p. prefix p friend_id) ps)"

text \<open>
  The state of the loop over the responses: the two seen-sets, the lines appended so far to
  the main target and to the unseparated target, and the two counters.
\<close>

record dump_state =
  written_main :: "string set"
  written_unsep :: "string set"
  main_out :: "string list"
  unsep_out :: "string list"
  line_count :: nat
  line_count_un :: nat

definition init_dump :: dump_state where
  "init_dump = \<lparr>written_main = {}, written_unsep = {}, main_out = [], unsep_out = [],
                 line_count = 0, line_count_un = 0\<rparr>"

text \<open>The inner loop over one response's friends; \<open>(wm, wu, new_main, new_unsep)\<close> is its state.
  A record without \<^verbatim>\<open>id\<close> raises \<^verbatim>\<open>KeyError\<close>, which the loop catches and skips.\<close>

fun process_friends ::
  "string list option \<Rightarrow> friend list \<Rightarrow> string set \<times> string set \<times> string list \<times> string list
     \<Rightarrow> string set \<times> string set \<times> string list \<times> string list" where
  "process_friends sp [] st = st"
| "process_friends sp (f # fs) (wm, wu, new_main, new_unsep) =
     (case f_id f of
        None \<Rightarrow> process_friends sp fs (wm, wu, new_main, new_unsep)
      | Some friend_id \<Rightarrow>
          let item = format_item friend_id (f_name f) in
          if filter_on sp then
            if starts_with_any sp friend_id then
              if item \<notin> wm
              then process_friends sp fs (insert item wm, wu, new_main @ [item], new_unsep)
              else process_friends sp fs (wm, wu, new_main, new_unsep)
            else
              if item \<notin> wu
              then process_friends sp fs (wm, insert item wu, new_main, new_unsep @ [item])
              else process_friends sp fs (wm, wu, new_main, new_unsep)
          else
            if item \<notin> wm
            then process_friends sp fs (insert item wm, wu, new_main @ [item], new_unsep)
            else process_friends sp fs (wm, wu, new_main, new_unsep))"

text \<open>One response: run the inner loop, then append the new lines. \<open>unsep_given\<close> says
  that \<^verbatim>\<open>unsep_file\<close> is not \<^verbatim>\<open>None\<close>.\<close>

definition process_response :: "string list option \<Rightarrow> bool \<Rightarrow> response \<Rightarrow> dump_state \<Rightarrow> dump_state" where
  "process_response sp unsep_given r st =
     (case process_friends sp (friends_data r) (written_main st, written_unsep st, [], []) of
        (wm, wu, new_main, new_unsep) \<Rightarrow>
          let st1 = st\<lparr>written_main := wm, written_unsep := wu\<rparr>;
              st2 = (if new_main \<noteq> []
                     then st1\<lparr>main_out := main_out st1 @ new_main,
                              line_count := line_count st1 + length new_main\<rparr>
                     else st1)
          in (if new_unsep \<noteq> [] \<and> unsep_given
              then st2\<lparr>unsep_out := unsep_out st2 @ new_unsep,
                       line_count_un := line_count_un st2 + length new_unsep\<rparr>
              else st2))"

fun process_responses ::
  "string list option \<Rightarrow> bool \<Rightarrow> response option list \<Rightarrow> dump_state \<Rightarrow> dump_state" where
  "process_responses sp unsep_given [] st = st"
| "process_responses sp unsep_given (None # rs) st = process_responses sp unsep_given rs st"
| "process_responses sp unsep_given (Some r # rs) st =
     process_responses sp unsep_given rs (process_response sp unsep_given r st)"

subsection \<open>The whole call\<close>

text \<open>
  What a call leaves behind besides its return value: the identifiers requested from the
  network, in order, and the lines appended to each of the two targets. The targets are two
  sinks; what the files held before the call is not part of the model, and a line is one
  formatted item. The progress callback only reports and is left out.
\<close>

record dump_result =
  counts :: "nat \<times> nat"
  requested :: "string list"
  main_lines :: "string list"
  unsep_lines :: "string list"

definition phase1_ids :: "network \<Rightarrow> string list \<Rightarrow> string list" where
  "phase1_ids net uids = phase1 (gather net 0 uids) []"

definition target_uids :: "network \<Rightarrow> string list \<Rightarrow> bool \<Rightarrow> string list" where
  "target_uids net uids recursive =
     (if recursive then sorted_desc (phase1_ids net uids) else uids)"

definition phase2_responses :: "network \<Rightarrow> string list \<Rightarrow> bool \<Rightarrow> response option list" where
  "phase2_responses net uids recursive =
     gather net (length uids) (target_uids net uids recursive)"

definition dump_friends ::
  "api \<Rightarrow> network \<Rightarrow> string list \<Rightarrow> bool \<Rightarrow> string list option \<Rightarrow> bool \<Rightarrow> dump_result" where
  "dump_friends a net uids unsep_given sep_prefixes recursive =
     (if \<not> is_logged_in a
      then \<lparr>counts = (0, 0), requested = [], main_lines = [], unsep_lines = []\<rparr>
      else if phase1_ids net uids = []
      then \<lparr>counts = (0, 0), requested = uids, main_lines = [], unsep_lines = []\<rparr>
      else
        let st = process_responses sep_prefixes unsep_given
                   (phase2_responses net uids recursive) init_dump
        in \<lparr>counts = (line_count st, line_count_un st),
            requested = uids @ target_uids net uids recursive,
            main_lines = main_out st, unsep_lines = unsep_out st\<rparr>)"

text \<open>\<^verbatim>\<open>dump_simple\<close> passes neither an unseparated file nor prefixes and returns the first
  count; \<^verbatim>\<open>dump_unlimited\<close> passes its arguments on with \<^verbatim>\<open>recursive=True\<close>.\<close>

definition dump_simple :: "api \<Rightarrow> network \<Rightarrow> string list \<Rightarrow> nat \<times> dump_result" where
  "dump_simple a net uids =
     (let r = dump_friends a net uids False None False in (fst (counts r), r))"

definition dump_unlimited ::
  "api \<Rightarrow> network \<Rightarrow> string list \<Rightarrow> bool \<Rightarrow> string list option \<Rightarrow> dump_result" where
  "dump_unlimited a net uids unsep_given sep_prefixes =
     dump_friends a net uids unsep_given sep_prefixes True"

section \<open>Strings as Python uses them\<close>

text \<open>
  A string is a Python string written as its UTF-8 bytes. \<^verbatim>\<open>x in s\<close> is the substring test.
  \<^verbatim>\<open>s.lower()\<close> and \<^verbatim>\<open>s.strip()\<close> follow the Unicode tables of the interpreter (\<^verbatim>\<open>lower\<close> also
  turns U+212A KELVIN SIGN into \<^verbatim>\<open>k\<close>, \<^verbatim>\<open>strip\<close> also removes U+00A0 NO-BREAK SPACE), which are
  no part of the repository: the two functions are taken as they are, as parameters of the
  model, together with the value of \<^verbatim>\<open>Config.style_box\<close>, which depends on the colours of the
  platform.
\<close>

fun contains :: "string \<Rightarrow> string \<Rightarrow> bool" where
  "contains needle [] = (needle = [])"
| "contains needle (c # cs) = (prefix needle (c # cs) \<or> contains needle cs)"

record library =
  str_lower :: "string \<Rightarrow> string"
  str_strip :: "string \<Rightarrow> string"
  style_box :: string

text \<open>\<^verbatim>\<open>str(n)\<close> of a natural number, as an f-string writes it.\<close>

definition digit_char :: "nat \<Rightarrow> char" where
  "digit_char d = ''0123456789'' ! d"

function str_of_nat :: "nat \<Rightarrow> string" where
  "str_of_nat n = (if n < 10 then [digit_char n] else str_of_nat (n div 10) @ [digit_char (n mod 10)])"
  by pat_completeness auto
termination
  by (relation "measure id") auto

declare str_of_nat.simps [simp del]

text \<open>\<^verbatim>\<open>cookie_string.split(';')\<close> and \<^verbatim>\<open>parse_cookies\<close>: the fields of a cookie string, each
  piece that holds \<^verbatim>\<open>=\<close> stripped and cut at its first \<^verbatim>\<open>=\<close>, in the order of the string (in
  the dictionary a later field replaces an earlier one of the same name).\<close>

fun split_on :: "char \<Rightarrow> string \<Rightarrow> string list" where
  "split_on sep [] = [[]]"
| "split_on sep (c # cs) =
     (if c = sep then [] # split_on sep cs
      else (case split_on sep cs of
              [] \<Rightarrow> [[c]]
            | p # ps \<Rightarrow> (c # p) # ps))"

definition parse_cookies :: "library \<Rightarrow> string \<Rightarrow> (string \<times> string) list" where
  "parse_cookies lib cookie_string =
     map (\<lambda>cookie. let s = str_strip lib cookie
                    in (takeWhile (\<lambda>c. c \<noteq> CHR ''='') s, drop 1 (dropWhile (\<lambda>c. c \<noteq> CHR ''='') s)))
         (filter (\<lambda>cookie. CHR ''='' \<in> set cookie) (split_on CHR '';'' cookie_string))"

section \<open>Token extraction and login (AuthClient)\<close>

text \<open>What a login does that can be seen from outside, in order: the requests it sends,
  with what they carry, and the texts it hands to \<^verbatim>\<open>Config.animate\<close>, which writes the text
  and a newline one character at a time and sleeps 0.01 s after each character.\<close>

datatype event =
    OAuthGet string
  | TokenPost string
  | LoginPost string string
  | Animate string

text \<open>
  The OAuth status probe either raises or answers with headers, of which the code reads
  \<^verbatim>\<open>str(response.headers)\<close>. The token API either raises (also when the body is no JSON
  object) or answers with \<^verbatim>\<open>status\<close> and \<^verbatim>\<open>data.access_token\<close>, each possibly missing.
\<close>

datatype oauth_reply = OAuthRaised | OAuthHeaders string

datatype token_reply = TokenRaised | TokenJson "string option" "string option"

definition dq :: char where
  "dq = CHR 0x22"

definition access_token_key :: string where
  "access_token_key = [dq] @ ''access_token'' @ [dq] @ '':''"

text \<open>The pattern \<^verbatim>\<open>"access_token":"([^"]+)"\<close> tried at the head of a string: after the
  key and an opening quote, the longest run of characters other than a quote, which must be
  non-empty and followed by a quote.\<close>

definition match_token_here :: "string \<Rightarrow> string option" where
  "match_token_here s =
     (if prefix (access_token_key @ [dq]) s
      then (let rest = drop (length (access_token_key @ [dq])) s;
                v = takeWhile (\<lambda>c. c \<noteq> dq) rest
            in if v \<noteq> [] \<and> dropWhile (\<lambda>c. c \<noteq> dq) rest \<noteq> [] then Some v else None)
      else None)"

text \<open>\<^verbatim>\<open>re.search\<close>: the leftmost position where the pattern matches.\<close>

fun re_search_token :: "string \<Rightarrow> string option" where
  "re_search_token [] = None"
| "re_search_token (c # cs) =
     (case match_token_here (c # cs) of
        Some t \<Rightarrow> Some t
      | None \<Rightarrow> re_search_token cs)"

definition extract_token_from_cookie :: "(string \<Rightarrow> oauth_reply) \<Rightarrow> string \<Rightarrow> string option" where
  "extract_token_from_cookie oauth cookie =
     (case oauth cookie of
        OAuthRaised \<Rightarrow> None
      | OAuthHeaders h \<Rightarrow> if contains access_token_key h then re_search_token h else None)"

definition extract_token_from_api :: "(string \<Rightarrow> token_reply) \<Rightarrow> string \<Rightarrow> string option" where
  "extract_token_from_api tapi cookie =
     (case tapi cookie of
        TokenRaised \<Rightarrow> None
      | TokenJson st tok \<Rightarrow> if st = Some ''success'' \<and> truthy tok then tok else None)"

text \<open>\<^verbatim>\<open>re.search(r'sb=[^;]+', cookie)\<close>: somewhere \<^verbatim>\<open>sb=\<close> is followed by a character other
  than a semicolon.\<close>

fun re_search_sb :: "string \<Rightarrow> bool" where
  "re_search_sb (a # b # c # d # rest) =
     ((a = CHR ''s'' \<and> b = CHR ''b'' \<and> c = CHR ''='' \<and> d \<noteq> CHR '';'')
      \<or> re_search_sb (b # c # d # rest))"
| "re_search_sb _ = False"

definition sb_default :: string where
  "sb_default = ''sb=By.ShajoN-404.OfficiaL;''"

record login_result =
  lr_success :: bool
  lr_status :: string
  lr_after :: api
  lr_trace :: "event list"

text \<open>The first two lines of \<^verbatim>\<open>login_with_cookie\<close>: a cookie in which the pattern finds
  nothing gets the fixed field in front. The tests \<^verbatim>\<open>if token:\<close> of the two logins are
  written as a case on the extracted token: an extraction that gives a token gives a
  non-empty one (\<open>extract_token_from_cookie_nonempty\<close>, \<open>extract_token_from_api_nonempty\<close>).\<close>

definition ensure_sb :: "string \<Rightarrow> string" where
  "ensure_sb cookie0 = (if \<not> re_search_sb cookie0 then sb_default @ cookie0 else cookie0)"

definition login_with_cookie ::
  "(string \<Rightarrow> oauth_reply) \<Rightarrow> (string \<Rightarrow> token_reply) \<Rightarrow> api \<Rightarrow> string \<Rightarrow> login_result" where
  "login_with_cookie oauth tapi a cookie0 =
     (let cookie = ensure_sb cookie0 in
      case extract_token_from_cookie oauth cookie of
        Some token1 \<Rightarrow>
          \<lparr>lr_success = True, lr_status = ''SUCCESS'',
           lr_after = set_token token1 (set_cookie cookie a), lr_trace = [OAuthGet cookie]\<rparr>
      | None \<Rightarrow>
          (case extract_token_from_api tapi cookie of
             Some token2 \<Rightarrow>
               \<lparr>lr_success = True, lr_status = ''SUCCESS'',
                lr_after = set_token token2 (set_cookie cookie a),
                lr_trace = [OAuthGet cookie, TokenPost cookie]\<rparr>
           | None \<Rightarrow>
               \<lparr>lr_success = False, lr_status = ''TOKEN_FAILED'', lr_after = a,
                lr_trace = [OAuthGet cookie, TokenPost cookie]\<rparr>))"

text \<open>
  The login endpoint times out, raises something else (with the exception's text), or
  answers: \<^verbatim>\<open>response.text\<close> and what reading the body as a JSON object gives, \<open>Inl e\<close> when
  that raises \<open>e\<close>. The fields read are \<^verbatim>\<open>status\<close>, \<^verbatim>\<open>data.cookies\<close> and \<^verbatim>\<open>message\<close> (a string
  when present). The reply may differ from one attempt to the next, so the endpoint takes the
  number of the attempt.
\<close>

record login_json =
  lj_status :: "string option"
  lj_cookies :: "string option"
  lj_message :: "string option"

datatype login_reply =
    LoginTimeout
  | LoginRaised string
  | LoginResponse string "string + login_json"

definition MAX_API_RETRIES :: nat where
  "MAX_API_RETRIES = 10"

text \<open>The retry messages, \<^verbatim>\<open>f'{style_box} TIMEOUT, RETRYING ({retry_count}/{MAX_API_RETRIES})...'\<close>
  and its like for the proxy error.\<close>

definition timeout_message :: "library \<Rightarrow> nat \<Rightarrow> string" where
  "timeout_message lib retry_count =
     style_box lib @ '' TIMEOUT, RETRYING ('' @ str_of_nat retry_count @ ''/''
       @ str_of_nat MAX_API_RETRIES @ '')...''"

definition proxy_message :: "library \<Rightarrow> nat \<Rightarrow> string" where
  "proxy_message lib retry_count =
     style_box lib @ '' PROXY ERROR, RETRYING ('' @ str_of_nat retry_count @ ''/''
       @ str_of_nat MAX_API_RETRIES @ '')...''"

text \<open>The status of a parsed body that is no success, from
  \<^verbatim>\<open>error_msg = str(data.get('message', '')).lower()\<close> on.\<close>

definition failure_status :: "library \<Rightarrow> login_json \<Rightarrow> string" where
  "failure_status lib d =
     (let error_msg = str_lower lib (case lj_message d of None \<Rightarrow> [] | Some m \<Rightarrow> m) in
      if contains ''checkpoint'' error_msg \<or> contains ''two-factor'' error_msg
      then ''CHECKPOINT''
      else if contains ''invalid'' error_msg \<or> contains ''incorrect'' error_msg
              \<or> contains ''wrong'' error_msg
      then ''INVALID_CREDENTIALS''
      else (case lj_message d of None \<Rightarrow> ''LOGIN_FAILED'' | Some m \<Rightarrow> m))"

text \<open>What the loop body does with a parsed body that is no proxy error.\<close>

definition handle_login_json ::
  "library \<Rightarrow> (string \<Rightarrow> oauth_reply) \<Rightarrow> (string \<Rightarrow> token_reply) \<Rightarrow> api \<Rightarrow> event list
     \<Rightarrow> login_json \<Rightarrow> login_result" where
  "handle_login_json lib oauth tapi a sent0 d =
     (if lj_status d = Some ''success'' \<and> truthy (lj_cookies d)
      then (case lj_cookies d of
              None \<Rightarrow> \<lparr>lr_success = False, lr_status = ''TOKEN_FAILED'', lr_after = a, lr_trace = sent0\<rparr>
            | Some cookie \<Rightarrow>
                (case extract_token_from_cookie oauth cookie of
                   Some token1 \<Rightarrow>
                     \<lparr>lr_success = True, lr_status = ''SUCCESS'',
                      lr_after = set_token token1 (set_cookie cookie a),
                      lr_trace = sent0 @ [OAuthGet cookie]\<rparr>
                 | None \<Rightarrow>
                     (case extract_token_from_api tapi cookie of
                        Some token2 \<Rightarrow>
                          \<lparr>lr_success = True, lr_status = ''SUCCESS'',
                           lr_after = set_token token2 (set_cookie cookie a),
                           lr_trace = sent0 @ [OAuthGet cookie, TokenPost cookie]\<rparr>
                      | None \<Rightarrow>
                          \<lparr>lr_success = False, lr_status = ''TOKEN_FAILED'', lr_after = a,
                           lr_trace = sent0 @ [OAuthGet cookie, TokenPost cookie]\<rparr>)))
      else \<lparr>lr_success = False, lr_status = failure_status lib d, lr_after = a, lr_trace = sent0\<rparr>)"

text \<open>The \<^verbatim>\<open>while retry_count < MAX_API_RETRIES\<close> loop. Each pass posts the same identifier
  and password; the attempt number is \<open>retry_count\<close>, since only a retry starts another pass,
  and a retry first animates its message with the counter already increased.\<close>

function login_loop ::
  "library \<Rightarrow> (string \<Rightarrow> oauth_reply) \<Rightarrow> (string \<Rightarrow> token_reply)
     \<Rightarrow> (nat \<Rightarrow> string \<Rightarrow> string \<Rightarrow> login_reply)
     \<Rightarrow> api \<Rightarrow> string \<Rightarrow> string \<Rightarrow> nat \<Rightarrow> event list \<Rightarrow> login_result" where
  "login_loop lib oauth tapi lapi a uid password retry_count sent0 =
     (if retry_count < MAX_API_RETRIES
      then (case lapi retry_count uid password of
              LoginTimeout \<Rightarrow>
                login_loop lib oauth tapi lapi a uid password (retry_count + 1)
                  (sent0 @ [LoginPost uid password, Animate (timeout_message lib (retry_count + 1))])
            | LoginRaised e \<Rightarrow>
                \<lparr>lr_success = False, lr_status = ''ERROR: '' @ e, lr_after = a,
                 lr_trace = sent0 @ [LoginPost uid password]\<rparr>
            | LoginResponse response_text body \<Rightarrow>
                if contains ''SOCKSHTTPSConnectionPool'' response_text
                then login_loop lib oauth tapi lapi a uid password (retry_count + 1)
                       (sent0 @ [LoginPost uid password,
                                 Animate (proxy_message lib (retry_count + 1))])
                else (case body of
                        Inl e \<Rightarrow>
                          \<lparr>lr_success = False, lr_status = ''ERROR: '' @ e, lr_after = a,
                           lr_trace = sent0 @ [LoginPost uid password]\<rparr>
                      | Inr d \<Rightarrow>
                          handle_login_json lib oauth tapi a (sent0 @ [LoginPost uid password]) d))
      else \<lparr>lr_success = False, lr_status = ''MAX_RETRIES_EXCEEDED'', lr_after = a, lr_trace = sent0\<rparr>)"
  by pat_completeness auto
termination
  by (relation "measure (\<lambda>(lib, oauth, tapi, lapi, a, uid, password, retry_count, sent0).
                           MAX_API_RETRIES - retry_count)") auto

declare login_loop.simps [simp del]

definition login_with_credentials ::
  "library \<Rightarrow> (string \<Rightarrow> oauth_reply) \<Rightarrow> (string \<Rightarrow> token_reply)
     \<Rightarrow> (nat \<Rightarrow> string \<Rightarrow> string \<Rightarrow> login_reply)
     \<Rightarrow> api \<Rightarrow> string \<Rightarrow> string \<Rightarrow> login_result" where
  "login_with_credentials lib oauth tapi lapi a uid password =
     login_loop lib oauth tapi lapi a uid password 0 []"

section \<open>Login validation (LoginValidator)\<close>

text \<open>
  The probe file \<^verbatim>\<open>.uid.txt\<close> is not found, cannot be read, or gives its lines; or looking
  for it raises (\<^verbatim>\<open>path.exists()\<close> outside any \<^verbatim>\<open>try\<close>, for instance on a directory that may
  not be searched), and then \<^verbatim>\<open>validate_login\<close> raises. A probe times out, raises, or answers
  with a JSON value, of which the code reads \<^verbatim>\<open>str(data)\<close> and
  \<^verbatim>\<open>data.get('friends', {}).get('data', [])\<close> (\<open>None\<close> when that raises).
\<close>

datatype uid_file = NoFile | Unreadable | Lines "string list" | LookupRaised

datatype probe_reply =
    ProbeTimeout
  | ProbeRaised
  | ProbeJson string "friend list option"

definition error_words :: "string list" where
  "error_words = [''blocked'', ''misuse'', ''abusive'', ''exceeded'', ''misusing'', ''error'']"

text \<open>\<^verbatim>\<open>any(word in str(data).lower() for word in error_words)\<close>.\<close>

definition keyword_hit :: "library \<Rightarrow> string \<Rightarrow> bool" where
  "keyword_hit lib serialized = list_ex (\<lambda>word. contains word (str_lower lib serialized)) error_words"

text \<open>\<^verbatim>\<open>[f['id'] for f in friends]\<close>, which raises \<^verbatim>\<open>KeyError\<close> at a record without id.\<close>

fun friend_ids_of :: "friend list \<Rightarrow> string list option" where
  "friend_ids_of [] = Some []"
| "friend_ids_of (f # fs) =
     (case f_id f of
        None \<Rightarrow> None
      | Some i \<Rightarrow> (case friend_ids_of fs of None \<Rightarrow> None | Some ids \<Rightarrow> Some (i # ids)))"

record validation =
  v_ok :: bool
  v_friend_ids :: "string list"
  v_after :: api
  v_probed :: "string list"
  v_blocked :: bool

fun probe_loop ::
  "library \<Rightarrow> (nat \<Rightarrow> string \<Rightarrow> probe_reply) \<Rightarrow> api \<Rightarrow> string list \<Rightarrow> string list \<Rightarrow> bool \<Rightarrow> validation" where
  "probe_loop lib graph a [] probed blocked_detected =
     \<lparr>v_ok = False, v_friend_ids = [], v_after = a, v_probed = probed,
      v_blocked = blocked_detected\<rparr>"
| "probe_loop lib graph a (line # rest) probed blocked_detected =
     (let uid = str_strip lib line in
      if uid = [] then probe_loop lib graph a rest probed blocked_detected
      else (case graph (length probed) uid of
              ProbeTimeout \<Rightarrow> probe_loop lib graph a rest (probed @ [uid]) blocked_detected
            | ProbeRaised \<Rightarrow> probe_loop lib graph a rest (probed @ [uid]) blocked_detected
            | ProbeJson serialized friends \<Rightarrow>
                if keyword_hit lib serialized
                then probe_loop lib graph a rest (probed @ [uid]) True
                else (case friends of
                        None \<Rightarrow> probe_loop lib graph a rest (probed @ [uid]) blocked_detected
                      | Some fs \<Rightarrow>
                          if fs \<noteq> []
                          then (case friend_ids_of fs of
                                  None \<Rightarrow>
                                    probe_loop lib graph a rest (probed @ [uid]) blocked_detected
                                | Some friend_ids \<Rightarrow>
                                    \<lparr>v_ok = True, v_friend_ids = friend_ids,
                                     v_after = save_login_check friend_ids a,
                                     v_probed = probed @ [uid],
                                     v_blocked = blocked_detected\<rparr>)
                          else probe_loop lib graph a rest (probed @ [uid]) blocked_detected)))"

text \<open>\<^verbatim>\<open>validate_login\<close>; \<open>None\<close> when it raises.\<close>

definition validate_login ::
  "library \<Rightarrow> (nat \<Rightarrow> string \<Rightarrow> probe_reply) \<Rightarrow> api \<Rightarrow> uid_file \<Rightarrow> validation option" where
  "validate_login lib graph a file =
     (if \<not> is_logged_in a
      then Some \<lparr>v_ok = False, v_friend_ids = [], v_after = a, v_probed = [], v_blocked = False\<rparr>
      else (case file of
              LookupRaised \<Rightarrow> None
            | NoFile \<Rightarrow>
                Some \<lparr>v_ok = True, v_friend_ids = [], v_after = a, v_probed = [], v_blocked = False\<rparr>
            | Unreadable \<Rightarrow>
                Some \<lparr>v_ok = True, v_friend_ids = [], v_after = a, v_probed = [], v_blocked = False\<rparr>
            | Lines test_uids \<Rightarrow>
                if test_uids = []
                then Some \<lparr>v_ok = True, v_friend_ids = [], v_after = a, v_probed = [],
                           v_blocked = False\<rparr>
                else Some (probe_loop lib graph a test_uids [] False)))"

text \<open>\<^verbatim>\<open>App._validate_current_login\<close> (FILE.py), the caller that logs out when a validation
  reports failure, and that returns \<^verbatim>\<open>False\<close> without logging out when the validation
  raises.\<close>

definition validate_current_login ::
  "library \<Rightarrow> (nat \<Rightarrow> string \<Rightarrow> probe_reply) \<Rightarrow> api \<Rightarrow> uid_file \<Rightarrow> bool \<times> api" where
  "validate_current_login lib graph a file =
     (if \<not> is_logged_in a then (False, a)
      else (case validate_login lib graph a file of
              None \<Rightarrow> (False, a)
            | Some v \<Rightarrow> if \<not> v_ok v then (False, logout (v_after v)) else (True, v_after v)))"

text \<open>The property setters of \<^verbatim>\<open>FacebookAPI\<close> are \<open>set_token\<close> and \<open>set_cookie\<close>. The
  module-level functions \<^verbatim>\<open>validate_login(token, cookie)\<close>, \<^verbatim>\<open>dump_unlimited\<close> and
  \<^verbatim>\<open>dump_simple\<close> at the end of core.py start with the two assignments
  \<^verbatim>\<open>_api._token = token; _api._cookie = cookie\<close>, which save nothing.\<close>

definition assign_credentials :: "string option \<Rightarrow> string option \<Rightarrow> api \<Rightarrow> api" where
  "assign_credentials token cookie a = a\<lparr>a_token := token, a_cookie := cookie\<rparr>"

definition module_validate_login ::
  "library \<Rightarrow> (nat \<Rightarrow> string \<Rightarrow> probe_reply) \<Rightarrow> api \<Rightarrow> string option \<Rightarrow> string option \<Rightarrow> uid_file
     \<Rightarrow> validation option" where
  "module_validate_login lib graph a token cookie file =
     validate_login lib graph (assign_credentials token cookie a) file"

section \<open>Reading a run\<close>

text \<open>
  The friend records of a list of responses, in order, and the lines they format to under a
  routing predicate on the identifier. A record goes to the main target when no prefix
  filter is on or its identifier starts with one of the prefixes.
\<close>

definition response_records :: "response option list \<Rightarrow> friend list" where
  "response_records rs =
     concat (map (\<lambda>r. case r of None \<Rightarrow> [] | Some resp \<Rightarrow> friends_data resp) rs)"

fun lines_for :: "(string \<Rightarrow> bool) \<Rightarrow> friend list \<Rightarrow> string list" where
  "lines_for route [] = []"
| "lines_for route (f # fs) =
     (case f_id f of
        None \<Rightarrow> lines_for route fs
      | Some i \<Rightarrow>
          if route i then format_item i (f_name f) # lines_for route fs
          else lines_for route fs)"

definition to_main :: "string list option \<Rightarrow> string \<Rightarrow> bool" where
  "to_main sp i = (if filter_on sp then starts_with_any sp i else True)"

definition main_items :: "string list option \<Rightarrow> response option list \<Rightarrow> string list" where
  "main_items sp rs = lines_for (to_main sp) (response_records rs)"

definition unsep_items :: "string list option \<Rightarrow> response option list \<Rightarrow> string list" where
  "unsep_items sp rs = lines_for (\<lambda>i. \<not> to_main sp i) (response_records rs)"

text \<open>The responses Phase 2 receives in a call: none when the call returns before it.\<close>

definition fetched_responses :: "api \<Rightarrow> network \<Rightarrow> string list \<Rightarrow> bool \<Rightarrow> response option list" where
  "fetched_responses a net uids recursive =
     (if is_logged_in a \<and> phase1_ids net uids \<noteq> []
      then phase2_responses net uids recursive else [])"

text \<open>First occurrences: the elements of a list that are neither in \<open>seen\<close> nor earlier in
  the list, in order.\<close>

fun fresh :: "string set \<Rightarrow> string list \<Rightarrow> string list" where
  "fresh seen [] = []"
| "fresh seen (x # xs) = (if x \<in> seen then fresh seen xs else x # fresh (insert x seen) xs)"

text \<open>The non-empty friend identifiers of the error-free responses, in order.\<close>

fun ids_in :: "friend list \<Rightarrow> string list" where
  "ids_in [] = []"
| "ids_in (f # fs) =
     (case f_id f of
        None \<Rightarrow> ids_in fs
      | Some i \<Rightarrow> if i \<noteq> [] then i # ids_in fs else ids_in fs)"

fun returned_ids :: "response option list \<Rightarrow> string list" where
  "returned_ids [] = []"
| "returned_ids (None # rs) = returned_ids rs"
| "returned_ids (Some r # rs) =
     (if has_error r then returned_ids rs else ids_in (friends_data r) @ returned_ids rs)"

section \<open>Reading a login\<close>

text \<open>A reply after which the loop starts another pass: a timeout, or a body holding the
  proxy error text.\<close>

definition is_transient :: "login_reply \<Rightarrow> bool" where
  "is_transient r =
     (case r of
        LoginTimeout \<Rightarrow> True
      | LoginRaised e \<Rightarrow> False
      | LoginResponse response_text body \<Rightarrow> contains ''SOCKSHTTPSConnectionPool'' response_text)"

definition is_login_post :: "event \<Rightarrow> bool" where
  "is_login_post q = (case q of LoginPost u p \<Rightarrow> True | _ \<Rightarrow> False)"

text \<open>The message animated after the transient reply \<open>r\<close>, when the counter has become \<open>k\<close>,
  and what \<open>n\<close> passes that all end in a retry leave in the trace: a post and the animated
  message, \<open>n\<close> times.\<close>

definition retry_message :: "library \<Rightarrow> login_reply \<Rightarrow> nat \<Rightarrow> string" where
  "retry_message lib r k = (case r of LoginTimeout \<Rightarrow> timeout_message lib k | _ \<Rightarrow> proxy_message lib k)"

definition retry_trace ::
  "library \<Rightarrow> (nat \<Rightarrow> string \<Rightarrow> string \<Rightarrow> login_reply) \<Rightarrow> string \<Rightarrow> string \<Rightarrow> nat \<Rightarrow> event list" where
  "retry_trace lib lapi uid password n =
     concat (map (\<lambda>k. [LoginPost uid password,
                        Animate (retry_message lib (lapi k uid password) (k + 1))]) [0 ..< n])"

text \<open>The characters of a string are its bytes that do not continue a UTF-8 sequence, and
  \<^verbatim>\<open>animate\<close> sleeps once for each character of \<^verbatim>\<open>text + "\n"\<close>.\<close>

definition char_count :: "string \<Rightarrow> nat" where
  "char_count s = length (filter (\<lambda>c. \<not> (CHR 0x80 \<le> c \<and> c < CHR 0xC0)) s)"

definition animate_sleeps :: "string \<Rightarrow> nat" where
  "animate_sleeps text = char_count (text @ [CHR 0x0A])"

text \<open>The success test of the loop body.\<close>

definition login_succeeded :: "login_json \<Rightarrow> bool" where
  "login_succeeded d = (lj_status d = Some ''success'' \<and> truthy (lj_cookies d))"

text \<open>
  What Python's \<^verbatim>\<open>lower\<close> and \<^verbatim>\<open>strip\<close> do on ASCII text: \<^verbatim>\<open>lower\<close> replaces \<^verbatim>\<open>A\<close>..\<^verbatim>\<open>Z\<close> by
  \<^verbatim>\<open>a\<close>..\<^verbatim>\<open>z\<close> and leaves every other character, \<^verbatim>\<open>strip\<close> removes tab, line feed, vertical
  tab, form feed, carriage return, the four separators 0x1C..0x1F and the space from both
  ends. A library agrees with that when its two functions do so on every ASCII string.
\<close>

definition is_ascii :: "string \<Rightarrow> bool" where
  "is_ascii s = list_all (\<lambda>c. c < CHR 0x80) s"

definition ascii_lower :: "char \<Rightarrow> char" where
  "ascii_lower c =
     (case map_of (zip ''ABCDEFGHIJKLMNOPQRSTUVWXYZ'' ''abcdefghijklmnopqrstuvwxyz'') c of
        None \<Rightarrow> c
      | Some d \<Rightarrow> d)"

definition ascii_space :: "char \<Rightarrow> bool" where
  "ascii_space c =
     (c \<in> set [CHR 0x09, CHR 0x0A, CHR 0x0B, CHR 0x0C, CHR 0x0D,
                CHR 0x1C, CHR 0x1D, CHR 0x1E, CHR 0x1F, CHR 0x20])"

definition ascii_strip :: "string \<Rightarrow> string" where
  "ascii_strip s = rev (dropWhile ascii_space (rev (dropWhile ascii_space s)))"

definition ascii_agrees :: "library \<Rightarrow> bool" where
  "ascii_agrees lib =
     (\<forall>s. is_ascii s \<longrightarrow> str_lower lib s = map ascii_lower s \<and> str_strip lib s = ascii_strip s)"

text \<open>A character of a text stands for a character of a keyword when it is that character
  or its capital. A keyword occurs in a text without regard to case when some contiguous part
  of the text stands for it, character by character; the keywords of the code hold no
  capital.\<close>

definition capitals :: "char set" where
  "capitals = set ''ABCDEFGHIJKLMNOPQRSTUVWXYZ''"

definition same_letter :: "char \<Rightarrow> char \<Rightarrow> bool" where
  "same_letter c k =
     (c = k \<or> (c, k) \<in> set [(CHR ''A'', CHR ''a''), (CHR ''B'', CHR ''b''), (CHR ''C'', CHR ''c''),
        (CHR ''D'', CHR ''d''), (CHR ''E'', CHR ''e''), (CHR ''F'', CHR ''f''), (CHR ''G'', CHR ''g''),
        (CHR ''H'', CHR ''h''), (CHR ''I'', CHR ''i''), (CHR ''J'', CHR ''j''), (CHR ''K'', CHR ''k''),
        (CHR ''L'', CHR ''l''), (CHR ''M'', CHR ''m''), (CHR ''N'', CHR ''n''), (CHR ''O'', CHR ''o''),
        (CHR ''P'', CHR ''p''), (CHR ''Q'', CHR ''q''), (CHR ''R'', CHR ''r''), (CHR ''S'', CHR ''s''),
        (CHR ''T'', CHR ''t''), (CHR ''U'', CHR ''u''), (CHR ''V'', CHR ''v''), (CHR ''W'', CHR ''w''),
        (CHR ''X'', CHR ''x''), (CHR ''Y'', CHR ''y''), (CHR ''Z'', CHR ''z'')])"

definition mentions :: "string \<Rightarrow> string \<Rightarrow> bool" where
  "mentions keyword msg = (\<exists>ps w ss. msg = ps @ w @ ss \<and> list_all2 same_letter w keyword)"

section \<open>The application's use of the credentials (FILE.py)\<close>

text \<open>\<^verbatim>\<open>App._do_cookie_login\<close> logs out after a failed cookie login.\<close>

definition do_cookie_login ::
  "(string \<Rightarrow> oauth_reply) \<Rightarrow> (string \<Rightarrow> token_reply) \<Rightarrow> api \<Rightarrow> string \<Rightarrow> bool \<times> api" where
  "do_cookie_login oauth tapi a cookie0 =
     (let r = login_with_cookie oauth tapi a cookie0 in
      if lr_success r then (True, lr_after r) else (False, logout (lr_after r)))"

text \<open>
  Both absent or both present and non-empty, with the session store holding the same pair.
\<close>

definition cred_inv :: "api \<Rightarrow> bool" where
  "cred_inv a =
     (((a_token a = None \<and> a_cookie a = None) \<or> (truthy (a_token a) \<and> truthy (a_cookie a)))
      \<and> s_token (a_store a) = a_token a \<and> s_cookie (a_store a) = a_cookie a)"

text \<open>
  One operation on the credentials, with any behaviour of the remote services and of the
  library: the two logins, logout, a validation that returns, validation as the application
  calls it, the application's cookie login, and a restart, which reads the session store. A
  dump does not change the credentials. The property setters used alone and the assignments
  of the module-level functions at the end of core.py, which overwrite the pair with values
  given by their caller, are not among the operations.
\<close>

inductive step :: "api \<Rightarrow> api \<Rightarrow> bool" where
  step_login_cookie: "step a (lr_after (login_with_cookie oauth tapi a c))"
| step_login_credentials: "step a (lr_after (login_with_credentials lib oauth tapi lapi a uid pw))"
| step_logout: "step a (logout a)"
| step_validate: "validate_login lib graph a file = Some v \<Longrightarrow> step a (v_after v)"
| step_validate_current: "step a (snd (validate_current_login lib graph a file))"
| step_do_cookie_login: "step a (snd (do_cookie_login oauth tapi a c))"
| step_restart: "step a (load_session (a_store a))"

text \<open>The states the program can be in, from a first start with no session file.\<close>

inductive reachable :: "api \<Rightarrow> bool" where
  reachable_start: "reachable (load_session empty_session)"
| reachable_step: "reachable a \<Longrightarrow> step a b \<Longrightarrow> reachable b"

section \<open>Reading a validation\<close>

text \<open>
  The probes of a file are its lines, stripped, without the empty ones. A text has a keyword
  hit when its lower-cased form contains one of the six keywords. A reply makes the
  validation succeed when it has no keyword hit and its friends array is non-empty with an
  \<open>id\<close> in every record; it marks the session blocked when it has a keyword hit.
  \<open>probe_replies\<close> are the replies the probes would get if all were sent, the \<open>j\<close>-th probe as
  the \<open>j\<close>-th request.
\<close>

definition probes_of :: "library \<Rightarrow> string list \<Rightarrow> string list" where
  "probes_of lib test_uids = filter (\<lambda>u. u \<noteq> []) (map (str_strip lib) test_uids)"

definition blocked_text :: "library \<Rightarrow> string \<Rightarrow> bool" where
  "blocked_text lib serialized =
     (contains ''blocked'' (str_lower lib serialized) \<or> contains ''misuse'' (str_lower lib serialized)
      \<or> contains ''abusive'' (str_lower lib serialized) \<or> contains ''exceeded'' (str_lower lib serialized)
      \<or> contains ''misusing'' (str_lower lib serialized) \<or> contains ''error'' (str_lower lib serialized))"

definition probe_succeeds :: "library \<Rightarrow> probe_reply \<Rightarrow> bool" where
  "probe_succeeds lib r =
     (case r of
        ProbeJson serialized (Some fs) \<Rightarrow>
          \<not> blocked_text lib serialized \<and> fs \<noteq> [] \<and> list_all (\<lambda>f. f_id f \<noteq> None) fs
      | _ \<Rightarrow> False)"

definition probe_ids :: "probe_reply \<Rightarrow> string list" where
  "probe_ids r =
     (case r of
        ProbeJson serialized (Some fs) \<Rightarrow> List.map_filter f_id fs
      | _ \<Rightarrow> [])"

definition probe_blocked :: "library \<Rightarrow> probe_reply \<Rightarrow> bool" where
  "probe_blocked lib r =
     (case r of ProbeJson serialized fs \<Rightarrow> blocked_text lib serialized | _ \<Rightarrow> False)"

definition probe_replies :: "(nat \<Rightarrow> string \<Rightarrow> probe_reply) \<Rightarrow> nat \<Rightarrow> string list \<Rightarrow> probe_reply list" where
  "probe_replies graph k ps = map (\<lambda>(j, u). graph j u) (zip [k ..< k + length ps] ps)"

section \<open>Example inputs\<close>

definition demo_api :: api where
  "demo_api = \<lparr>a_token = Some ''T'', a_cookie = Some ''C'',
               a_store = \<lparr>s_token = Some ''T'', s_cookie = Some ''C'', s_login_check = None\<rparr>\<rparr>"

definition ann :: friend where
  "ann = \<lparr>f_id = Some ''7'', f_name = Some ''Ann''\<rparr>"

definition bo :: friend where
  "bo = \<lparr>f_id = Some ''9'', f_name = Some ''Bo''\<rparr>"

definition friends_of :: "friend list \<Rightarrow> response option" where
  "friends_of fs = Some \<lparr>has_error = False, friends_data = fs\<rparr>"

text \<open>The seed's friend is Ann; Ann's friend is Bo.\<close>

definition demo_net :: network where
  "demo_net k u = (if u = ''7'' then friends_of [bo] else friends_of [ann])"

text \<open>Phase 2 answers with two records for Cy around one for Bo.\<close>

definition cy :: friend where
  "cy = \<lparr>f_id = Some ''100077'', f_name = Some ''Cy''\<rparr>"

definition mixed_net :: network where
  "mixed_net k u = (if k = 0 then friends_of [ann] else friends_of [cy, bo, cy])"

definition clash_net :: network where
  "clash_net k u =
     (if k = 0 then friends_of [ann]
      else friends_of [\<lparr>f_id = Some ''1|2'', f_name = Some ''3''\<rparr>,
                       \<lparr>f_id = Some ''1'', f_name = Some ''2|3''\<rparr>])"

definition patchy_net :: network where
  "patchy_net k u =
     (if k = 0 then friends_of [ann, \<lparr>f_id = Some ''8'', f_name = Some ''Al''\<rparr>]
      else if u = ''8'' then None
      else friends_of [\<lparr>f_id = None, f_name = Some ''Ghost''\<rparr>,
                       \<lparr>f_id = Some ''5'', f_name = None\<rparr>, bo])"

text \<open>A library that works on ASCII text only, with a plain prefix box.\<close>

definition ascii_library :: library where
  "ascii_library = \<lparr>str_lower = map ascii_lower, str_strip = ascii_strip, style_box = ''[+]''\<rparr>"

text \<open>Remote services for the logins: a probe that raises, one whose headers hold a token,
  a token API that answers, one that raises; a login endpoint that always times out, one that
  answers with the proxy error three times and then rejects the password, one that rejects
  at once, one that accepts, one that rejects with a given message, and one that rejects
  with no message.\<close>

definition oauth_down :: "string \<Rightarrow> oauth_reply" where
  "oauth_down c = OAuthRaised"

definition oauth_ok :: "string \<Rightarrow> oauth_reply" where
  "oauth_ok c = OAuthHeaders (''{x: '' @ access_token_key @ [dq] @ ''EAAG1'' @ [dq] @ ''}'')"

definition token_ok :: "string \<Rightarrow> token_reply" where
  "token_ok c = TokenJson (Some ''success'') (Some ''EAAB2'')"

definition token_down :: "string \<Rightarrow> token_reply" where
  "token_down c = TokenRaised"

definition login_timeout :: "nat \<Rightarrow> string \<Rightarrow> string \<Rightarrow> login_reply" where
  "login_timeout k u p = LoginTimeout"

definition rejected :: login_json where
  "rejected = \<lparr>lj_status = Some ''error'', lj_cookies = None,
                lj_message = Some ''Invalid username or password''\<rparr>"

definition login_proxy_then_rejected :: "nat \<Rightarrow> string \<Rightarrow> string \<Rightarrow> login_reply" where
  "login_proxy_then_rejected k u p =
     (if k < 3 then LoginResponse ''SOCKSHTTPSConnectionPool(host=x): Max retries'' (Inl ''no JSON'')
      else LoginResponse ''{}'' (Inr rejected))"

definition login_rejected :: "nat \<Rightarrow> string \<Rightarrow> string \<Rightarrow> login_reply" where
  "login_rejected k u p = LoginResponse ''{}'' (Inr rejected)"

definition login_accepted :: "nat \<Rightarrow> string \<Rightarrow> string \<Rightarrow> login_reply" where
  "login_accepted k u p =
     LoginResponse ''{}'' (Inr \<lparr>lj_status = Some ''success'', lj_cookies = Some ''c_user=1;xs=2'',
                                lj_message = None\<rparr>)"

definition login_says :: "string \<Rightarrow> nat \<Rightarrow> string \<Rightarrow> string \<Rightarrow> login_reply" where
  "login_says msg k u p =
     LoginResponse ''{}'' (Inr \<lparr>lj_status = Some ''error'', lj_cookies = None, lj_message = Some msg\<rparr>)"

definition login_silent :: "nat \<Rightarrow> string \<Rightarrow> string \<Rightarrow> login_reply" where
  "login_silent k u p =
     LoginResponse ''{}'' (Inr \<lparr>lj_status = Some ''error'', lj_cookies = None, lj_message = None\<rparr>)"

text \<open>Probe replies: the first probe is blocked, the second times out, the third has friends;
  and a first probe whose only friend record has no \<open>id\<close>, followed by one with no friends.\<close>

definition graph_third_ok :: "nat \<Rightarrow> string \<Rightarrow> probe_reply" where
  "graph_third_ok k u =
     (if k = 0 then ProbeJson ''{'error': {'message': 'limit exceeded'}}'' (Some [])
      else if k = 1 then ProbeTimeout
      else ProbeJson ''{'friends': {'data': [{'id': '7', 'name': 'Ann'}, {'id': '9', 'name': 'Bo'}]}}''
             (Some [ann, bo]))"

definition graph_no_id :: "nat \<Rightarrow> string \<Rightarrow> probe_reply" where
  "graph_no_id k u =
     (if k = 0 then ProbeJson ''{'friends': {'data': [{'name': 'Ann'}]}}''
                      (Some [\<lparr>f_id = None, f_name = Some ''Ann''\<rparr>])
      else ProbeJson ''{'id': '5'}'' (Some []))"

section \<open>Short-circuits of the crawl\<close>

lemma gather_Nil: "gather net k [] = []"
  by (simp add: gather_def)

lemma phase1_ids_Nil: "phase1_ids net [] = []"
  by (simp add: phase1_ids_def gather_Nil)

text \<open>
  C4. A dump call with an empty seed list, and a dump call made while not logged in (token
  or cookie absent or empty), returns \<open>(0, 0)\<close>, requests nothing from the network and writes
  nothing; the same holds for the wrappers \<open>dump_simple\<close> (which returns \<open>0\<close>) and
  \<open>dump_unlimited\<close>.
\<close>

theorem dump_short_circuit:
  assumes "uids = [] \<or> \<not> is_logged_in a"
  shows "counts (dump_friends a net uids ug sp rec) = (0, 0)
       \<and> requested (dump_friends a net uids ug sp rec) = []
       \<and> main_lines (dump_friends a net uids ug sp rec) = []
       \<and> unsep_lines (dump_friends a net uids ug sp rec) = []
       \<and> fst (dump_simple a net uids) = 0
       \<and> requested (snd (dump_simple a net uids)) = []
       \<and> counts (dump_unlimited a net uids ug sp) = (0, 0)
       \<and> requested (dump_unlimited a net uids ug sp) = []"
  using assms
  by (auto simp: dump_friends_def dump_simple_def dump_unlimited_def phase1_ids_Nil Let_def)

theorem dump_short_circuit_witness:
  "is_logged_in demo_api
   \<and> counts (dump_friends demo_api demo_net [] True (Some [''1000'']) True) = (0, 0)
   \<and> requested (dump_friends demo_api demo_net [] True (Some [''1000'']) True) = []
   \<and> \<not> is_logged_in (logout demo_api)
   \<and> counts (dump_friends (logout demo_api) demo_net [''100012345''] False None False) = (0, 0)
   \<and> requested (dump_friends (logout demo_api) demo_net [''100012345''] False None False) = []
   \<and> fst (dump_simple (logout demo_api) demo_net [''100012345'']) = 0"
proof -
  have in_: "is_logged_in demo_api"
    by (simp add: is_logged_in_def demo_api_def truthy_def)
  have out: "\<not> is_logged_in (logout demo_api)"
    by (simp add: is_logged_in_def logout_def truthy_def)
  from dump_short_circuit [of "[]" demo_api demo_net True "Some [''1000'']" True]
       dump_short_circuit [of "[''100012345'']" "logout demo_api" demo_net False None False, OF disjI2, OF out]
       in_ out
  show ?thesis by simp
qed

section \<open>What the two loops compute\<close>

lemma set_fresh: "set (fresh seen xs) = set xs - seen"
  by (induction xs arbitrary: seen) auto

lemma distinct_fresh: "distinct (fresh seen xs)"
  by (induction xs arbitrary: seen) (auto simp: set_fresh)

lemma fresh_append: "fresh seen (xs @ ys) = fresh seen xs @ fresh (seen \<union> set xs) ys"
  by (induction xs arbitrary: seen) (auto simp: insert_absorb)

lemma process_friends_eq:
  "process_friends sp fs (wm, wu, nm, nu)
     = (wm \<union> set (lines_for (to_main sp) fs),
        wu \<union> set (lines_for (\<lambda>i. \<not> to_main sp i) fs),
        nm @ fresh wm (lines_for (to_main sp) fs),
        nu @ fresh wu (lines_for (\<lambda>i. \<not> to_main sp i) fs))"
proof (induction fs arbitrary: wm wu nm nu)
  case Nil
  show ?case by simp
next
  case (Cons f fs)
  show ?case
  proof (cases "f_id f")
    case None
    then show ?thesis by (simp add: Cons.IH)
  next
    case (Some i)
    show ?thesis
    proof (cases "to_main sp i")
      case True
      then show ?thesis using Some
        by (simp add: Cons.IH Let_def to_main_def insert_absorb split: if_splits)
    next
      case False
      then show ?thesis using Some
        by (simp add: Cons.IH Let_def to_main_def insert_absorb split: if_splits)
    qed
  qed
qed

lemma process_response_eq:
  "process_response sp ug r st =
     st\<lparr>written_main := written_main st \<union> set (lines_for (to_main sp) (friends_data r)),
        written_unsep := written_unsep st \<union> set (lines_for (\<lambda>i. \<not> to_main sp i) (friends_data r)),
        main_out := main_out st @ fresh (written_main st) (lines_for (to_main sp) (friends_data r)),
        line_count := line_count st + length (fresh (written_main st) (lines_for (to_main sp) (friends_data r))),
        unsep_out := unsep_out st @ (if ug then fresh (written_unsep st) (lines_for (\<lambda>i. \<not> to_main sp i) (friends_data r)) else []),
        line_count_un := line_count_un st + (if ug then length (fresh (written_unsep st) (lines_for (\<lambda>i. \<not> to_main sp i) (friends_data r))) else 0)\<rparr>"
  by (simp add: process_response_def process_friends_eq Let_def)

lemma lines_for_append: "lines_for route (xs @ ys) = lines_for route xs @ lines_for route ys"
  by (induction xs) (auto split: option.splits)

lemma process_responses_eq:
  "process_responses sp ug rs st =
     st\<lparr>written_main := written_main st \<union> set (main_items sp rs),
        written_unsep := written_unsep st \<union> set (unsep_items sp rs),
        main_out := main_out st @ fresh (written_main st) (main_items sp rs),
        line_count := line_count st + length (fresh (written_main st) (main_items sp rs)),
        unsep_out := unsep_out st @ (if ug then fresh (written_unsep st) (unsep_items sp rs) else []),
        line_count_un := line_count_un st + (if ug then length (fresh (written_unsep st) (unsep_items sp rs)) else 0)\<rparr>"
proof (induction rs arbitrary: st)
  case Nil
  show ?case by (simp add: main_items_def unsep_items_def response_records_def)
next
  case (Cons r rs)
  show ?case
  proof (cases r)
    case None
    then show ?thesis
      using Cons.IH [of st] by (simp add: main_items_def unsep_items_def response_records_def)
  next
    case (Some resp)
    have m: "main_items sp (Some resp # rs) = lines_for (to_main sp) (friends_data resp) @ main_items sp rs"
      by (simp add: main_items_def response_records_def lines_for_append)
    have u: "unsep_items sp (Some resp # rs) = lines_for (\<lambda>i. \<not> to_main sp i) (friends_data resp) @ unsep_items sp rs"
      by (simp add: unsep_items_def response_records_def lines_for_append)
    show ?thesis
      unfolding Some process_responses.simps Cons.IH m u
      by (simp add: process_response_eq fresh_append Un_assoc)
  qed
qed

lemma collect_ids_eq: "collect_ids fs acc = acc @ fresh (set acc) (ids_in fs)"
  by (induction fs arbitrary: acc) (auto split: option.splits)

lemma phase1_eq: "phase1 rs acc = acc @ fresh (set acc) (returned_ids rs)"
  by (induction rs acc rule: phase1.induct) (auto simp: collect_ids_eq fresh_append set_fresh)

lemma phase1_ids_eq: "phase1_ids net uids = fresh {} (returned_ids (gather net 0 uids))"
  by (simp add: phase1_ids_def phase1_eq)

lemma fresh_Nil_iff: "fresh {} xs = [] \<longleftrightarrow> xs = []"
  by (cases xs) auto

lemma sorted_desc_strict: "sorted_wrt (\<lambda>x y. y < x) (sorted_desc xs)"
proof -
  have "sorted_wrt (<) (sort (remdups xs))"
    by (simp add: strict_sorted_iff)
  then show ?thesis
    by (simp add: sorted_desc_def sorted_wrt_rev)
qed

lemma set_sorted_desc: "set (sorted_desc xs) = set xs"
  by (simp add: sorted_desc_def)

lemma dump_friends_lines:
  "main_lines (dump_friends a net uids ug sp rec)
     = fresh {} (main_items sp (fetched_responses a net uids rec))"
  "unsep_lines (dump_friends a net uids ug sp rec)
     = (if ug then fresh {} (unsep_items sp (fetched_responses a net uids rec)) else [])"
  "counts (dump_friends a net uids ug sp rec)
     = (length (main_lines (dump_friends a net uids ug sp rec)),
        length (unsep_lines (dump_friends a net uids ug sp rec)))"
  by (simp_all add: dump_friends_def fetched_responses_def process_responses_eq init_dump_def
        main_items_def unsep_items_def response_records_def Let_def)

lemma count_list_fresh: "count_list (fresh seen xs) l = (if l \<in> set xs - seen then 1 else 0)"
  by (induction xs arbitrary: seen) auto

lemma in_lines_for:
  "l \<in> set (lines_for route fs)
     \<longleftrightarrow> (\<exists>f\<in>set fs. \<exists>i. f_id f = Some i \<and> route i \<and> l = format_item i (f_name f))"
  by (induction fs) (auto split: option.splits)

section \<open>At most once per target\<close>

lemmas dump_defs = friends_of_def
  is_logged_in_def truthy_def phase1_ids_def gather_def target_uids_def phase2_responses_def
  sorted_desc_def fetched_responses_def dump_friends_def init_dump_def process_response_def
  format_item_def filter_on_def starts_with_any_def to_main_def main_items_def unsep_items_def
  response_records_def Let_def

lemma takeWhile_bar:
  "CHR ''|'' \<notin> set i \<Longrightarrow> takeWhile (\<lambda>c. c \<noteq> CHR ''|'') (format_item i n) = i"
proof -
  assume "CHR ''|'' \<notin> set i"
  then have "\<forall>c\<in>set i. c \<noteq> CHR ''|''" by blast
  then show ?thesis
    by (simp add: format_item_def takeWhile_append2)
qed

lemma items_disjoint:
  assumes "\<forall>f\<in>set fs. \<forall>i. f_id f = Some i \<longrightarrow> CHR ''|'' \<notin> set i"
  shows "set (lines_for route fs) \<inter> set (lines_for (\<lambda>i. \<not> route i) fs) = {}"
proof -
  have "False" if a: "l \<in> set (lines_for route fs)" and b: "l \<in> set (lines_for (\<lambda>i. \<not> route i) fs)" for l
  proof -
    from a obtain f i where f: "f \<in> set fs" "f_id f = Some i" "route i" "l = format_item i (f_name f)"
      by (auto simp: in_lines_for)
    from b obtain g j where g: "g \<in> set fs" "f_id g = Some j" "\<not> route j" "l = format_item j (f_name g)"
      by (auto simp: in_lines_for)
    have "i = takeWhile (\<lambda>c. c \<noteq> CHR ''|'') l"
      using assms f by (simp add: takeWhile_bar)
    moreover have "j = takeWhile (\<lambda>c. c \<noteq> CHR ''|'') l"
      using assms g by (simp add: takeWhile_bar)
    ultimately show False using f g by simp
  qed
  then show ?thesis by blast
qed

text \<open>
  C1 (as amended). For every call of \<open>dump_friends\<close> and every collection of Phase-2 responses,
  a formatted line \<open>friendId|friendName\<close> is written to the main file exactly once when a
  record routed to main formats to it, and never otherwise; it is written to the unseparated
  file exactly once when a record routed there formats to it and an unseparated file was
  given, and never otherwise (without that file the line is dropped). When no friend
  identifier contains the separator \<open>|\<close>, no line is written to both files, so a line is then
  written exactly once across both.
\<close>

theorem each_line_once_per_target:
  "count_list (main_lines (dump_friends a net uids ug sp rec)) l
     = (if l \<in> set (main_items sp (fetched_responses a net uids rec)) then 1 else 0)
   \<and> count_list (unsep_lines (dump_friends a net uids ug sp rec)) l
     = (if ug \<and> l \<in> set (unsep_items sp (fetched_responses a net uids rec)) then 1 else 0)
   \<and> ((\<forall>f\<in>set (response_records (fetched_responses a net uids rec)).
          \<forall>i. f_id f = Some i \<longrightarrow> CHR ''|'' \<notin> set i)
        \<longrightarrow> count_list (main_lines (dump_friends a net uids ug sp rec)
                         @ unsep_lines (dump_friends a net uids ug sp rec)) l
              = (if l \<in> set (main_items sp (fetched_responses a net uids rec))
                    \<or> (ug \<and> l \<in> set (unsep_items sp (fetched_responses a net uids rec)))
                 then 1 else 0))"
proof -
  let ?F = "fetched_responses a net uids rec"
  have m: "count_list (main_lines (dump_friends a net uids ug sp rec)) l
             = (if l \<in> set (main_items sp ?F) then 1 else 0)"
    by (simp add: dump_friends_lines count_list_fresh)
  have u: "count_list (unsep_lines (dump_friends a net uids ug sp rec)) l
             = (if ug \<and> l \<in> set (unsep_items sp ?F) then 1 else 0)"
    by (simp add: dump_friends_lines count_list_fresh)
  have d: "set (main_items sp ?F) \<inter> set (unsep_items sp ?F) = {}"
    if "\<forall>f\<in>set (response_records ?F). \<forall>i. f_id f = Some i \<longrightarrow> CHR ''|'' \<notin> set i"
    using items_disjoint [OF that] by (simp add: main_items_def unsep_items_def)
  show ?thesis
    using m u d by auto
qed

theorem each_line_once_per_target_witness:
  "count_list (main_lines (dump_friends demo_api mixed_net [''100012345''] True (Some [''1000'']) True))
       ''100077|Cy'' = 1
   \<and> count_list (unsep_lines (dump_friends demo_api mixed_net [''100012345''] True (Some [''1000'']) True))
       ''100077|Cy'' = 0
   \<and> count_list (main_lines (dump_friends demo_api mixed_net [''100012345''] True (Some [''1000'']) True)
                   @ unsep_lines (dump_friends demo_api mixed_net [''100012345''] True (Some [''1000'']) True))
       ''100077|Cy'' = 1
   \<and> response_records (fetched_responses demo_api mixed_net [''100012345''] True) = [cy, bo, cy]"
proof -
  have F: "fetched_responses demo_api mixed_net [''100012345''] True = [friends_of [cy, bo, cy]]"
    by (simp add: dump_defs demo_api_def mixed_net_def ann_def)
  have R: "response_records [friends_of [cy, bo, cy]] = [cy, bo, cy]"
    by (simp add: response_records_def friends_of_def)
  have M: "main_items (Some [''1000'']) [friends_of [cy, bo, cy]] = [''100077|Cy'', ''100077|Cy'']"
    by (simp add: dump_defs cy_def bo_def)
  have U: "unsep_items (Some [''1000'']) [friends_of [cy, bo, cy]] = [''9|Bo'']"
    by (simp add: dump_defs cy_def bo_def)
  have nobar: "\<forall>f\<in>set [cy, bo, cy]. \<forall>i. f_id f = Some i \<longrightarrow> CHR ''|'' \<notin> set i"
    by (simp add: cy_def bo_def)
  from each_line_once_per_target
         [of demo_api mixed_net "[''100012345'']" True "Some [''1000'']" True "''100077|Cy''"]
  show ?thesis
    unfolding F R M U using nobar by simp
qed

theorem each_line_once_counterexample:
  "bo \<in> set (response_records (fetched_responses demo_api demo_net [''100012345''] True))
   \<and> format_item ''9'' (f_name bo) = ''9|Bo''
   \<and> count_list (main_lines (dump_friends demo_api demo_net [''100012345''] False (Some [''1000'']) True)
                   @ unsep_lines (dump_friends demo_api demo_net [''100012345''] False (Some [''1000'']) True))
       ''9|Bo'' = 0
   \<and> count_list (main_lines (dump_friends demo_api clash_net [''100012345''] True (Some [''1|'']) True)
                   @ unsep_lines (dump_friends demo_api clash_net [''100012345''] True (Some [''1|'']) True))
       ''1|2|3'' = 2"
  by (simp add: dump_defs demo_api_def demo_net_def clash_net_def ann_def bo_def)

section \<open>Routing by prefix\<close>

text \<open>
  C3. With a non-empty prefix filter, every line written to the main file is the formatted
  line of a Phase-2 record whose identifier starts with at least one configured prefix, and
  every line written to the unseparated file is that of a record whose identifier starts
  with none of them. With no prefix filter (\<open>None\<close> or the empty list) nothing goes to the
  unseparated file and every formatted line is written to the main file.
\<close>

theorem prefix_routing:
  "(ps \<noteq> [] \<longrightarrow>
      (\<forall>l\<in>set (main_lines (dump_friends a net uids ug (Some ps) rec)).
         \<exists>f\<in>set (response_records (fetched_responses a net uids rec)).
           \<exists>i. f_id f = Some i \<and> l = format_item i (f_name f) \<and> (\<exists>p\<in>set ps. prefix p i))
    \<and> (\<forall>l\<in>set (unsep_lines (dump_friends a net uids ug (Some ps) rec)).
         \<exists>f\<in>set (response_records (fetched_responses a net uids rec)).
           \<exists>i. f_id f = Some i \<and> l = format_item i (f_name f) \<and> (\<forall>p\<in>set ps. \<not> prefix p i)))
   \<and> (sp = None \<or> sp = Some [] \<longrightarrow>
        unsep_lines (dump_friends a net uids ug sp rec) = []
      \<and> set (main_lines (dump_friends a net uids ug sp rec))
          = set (lines_for (\<lambda>i. True) (response_records (fetched_responses a net uids rec))))"
proof -
  let ?R = "response_records (fetched_responses a net uids rec)"
  have on: "to_main (Some ps) i \<longleftrightarrow> (\<exists>p\<in>set ps. prefix p i)" if "ps \<noteq> []" for i
    using that by (simp add: to_main_def filter_on_def starts_with_any_def list_ex_iff)
  have off: "to_main sp i" if "sp = None \<or> sp = Some []" for i
    using that by (auto simp: to_main_def filter_on_def)
  have m: "set (main_lines (dump_friends a net uids ug s rec)) = set (lines_for (to_main s) ?R)" for s
    by (simp add: dump_friends_lines set_fresh main_items_def)
  have u: "set (unsep_lines (dump_friends a net uids ug s rec))
             \<subseteq> set (lines_for (\<lambda>i. \<not> to_main s i) ?R)" for s
    by (auto simp: dump_friends_lines set_fresh unsep_items_def)
  have A: "\<exists>f\<in>set ?R. \<exists>i. f_id f = Some i \<and> l = format_item i (f_name f) \<and> (\<exists>p\<in>set ps. prefix p i)"
    if "ps \<noteq> []" "l \<in> set (main_lines (dump_friends a net uids ug (Some ps) rec))" for l
    using that m [of "Some ps"] on by (auto simp: in_lines_for)
  have B: "\<exists>f\<in>set ?R. \<exists>i. f_id f = Some i \<and> l = format_item i (f_name f) \<and> (\<forall>p\<in>set ps. \<not> prefix p i)"
    if "ps \<noteq> []" "l \<in> set (unsep_lines (dump_friends a net uids ug (Some ps) rec))" for l
  proof -
    from that(2) u [of "Some ps"] have "l \<in> set (lines_for (\<lambda>i. \<not> to_main (Some ps) i) ?R)"
      by blast
    then obtain f i where "f \<in> set ?R" "f_id f = Some i" "\<not> to_main (Some ps) i" "l = format_item i (f_name f)"
      by (auto simp: in_lines_for)
    with on [OF that(1)] show ?thesis by blast
  qed
  have C: "unsep_lines (dump_friends a net uids ug sp rec) = []" if "sp = None \<or> sp = Some []"
  proof -
    have "lines_for (\<lambda>i. \<not> to_main sp i) ?R = lines_for (\<lambda>i. False) ?R"
      using off [OF that] by simp
    moreover have "lines_for (\<lambda>i. False) fs = []" for fs
      by (induction fs) (auto split: option.splits)
    ultimately show ?thesis using u [of sp] by simp
  qed
  have D: "set (main_lines (dump_friends a net uids ug sp rec)) = set (lines_for (\<lambda>i. True) ?R)"
    if "sp = None \<or> sp = Some []"
  proof -
    have "to_main sp = (\<lambda>i. True)"
      using off [OF that] by (simp add: fun_eq_iff)
    with m [of sp] show ?thesis by simp
  qed
  show ?thesis using A B C D by blast
qed

theorem prefix_routing_witness:
  "[''1000''] \<noteq> []
   \<and> main_lines (dump_friends demo_api mixed_net [''100012345''] True (Some [''1000'']) True) = [''100077|Cy'']
   \<and> unsep_lines (dump_friends demo_api mixed_net [''100012345''] True (Some [''1000'']) True) = [''9|Bo'']
   \<and> response_records (fetched_responses demo_api mixed_net [''100012345''] True) = [cy, bo, cy]
   \<and> (\<exists>f\<in>set [cy, bo, cy]. \<exists>i. f_id f = Some i \<and> ''100077|Cy'' = format_item i (f_name f)
         \<and> (\<exists>p\<in>set [''1000'']. prefix p i))
   \<and> (\<exists>f\<in>set [cy, bo, cy]. \<exists>i. f_id f = Some i \<and> ''9|Bo'' = format_item i (f_name f)
         \<and> \<not> prefix ''1000'' i)
   \<and> unsep_lines (dump_friends demo_api mixed_net [''100012345''] True None True) = []
   \<and> set (main_lines (dump_friends demo_api mixed_net [''100012345''] True None True))
        = {''100077|Cy'', ''9|Bo''}"
proof -
  have M: "main_lines (dump_friends demo_api mixed_net [''100012345''] True (Some [''1000'']) True) = [''100077|Cy'']"
    by (simp add: dump_defs demo_api_def mixed_net_def ann_def bo_def cy_def)
  have U: "unsep_lines (dump_friends demo_api mixed_net [''100012345''] True (Some [''1000'']) True) = [''9|Bo'']"
    by (simp add: dump_defs demo_api_def mixed_net_def ann_def bo_def cy_def)
  have R: "response_records (fetched_responses demo_api mixed_net [''100012345''] True) = [cy, bo, cy]"
    by (simp add: dump_defs demo_api_def mixed_net_def ann_def bo_def cy_def)
  have L: "set (lines_for (\<lambda>i. True) [cy, bo, cy]) = {''100077|Cy'', ''9|Bo''}"
    by (auto simp: cy_def bo_def format_item_def)
  from prefix_routing [of "[''1000'']" demo_api mixed_net "[''100012345'']" True True None]
  show ?thesis
    unfolding M U R L by simp
qed

section \<open>Missing responses and incomplete records\<close>





section \<open>The two phases\<close>

lemma length_gather: "length (gather net k uids) = length uids"
  by (simp add: gather_def)

text \<open>
  C2 (as amended). Phase 1 runs in both modes: every call made while logged in first
  requests each seed once. If the error-free Phase-1 responses hold no non-empty friend
  identifier, the call returns \<open>(0, 0)\<close> without a Phase 2. Otherwise, with
  \<open>recursive = True\<close> the Phase-2 targets are exactly those identifiers, each once, in
  strictly descending order of strings; with \<open>recursive = False\<close> the Phase-2 targets are the
  seed list unchanged, so each seed is requested a second time. In both modes only lines
  formatted from the Phase-2 responses are written, and the counts are the numbers of
  lines written.
\<close>

theorem phase_targets:
  assumes "is_logged_in a"
  shows "take (length uids) (requested (dump_friends a net uids ug sp rec)) = uids
   \<and> (returned_ids (gather net 0 uids) = [] \<longrightarrow>
        requested (dump_friends a net uids ug sp rec) = uids
      \<and> counts (dump_friends a net uids ug sp rec) = (0, 0)
      \<and> main_lines (dump_friends a net uids ug sp rec) = []
      \<and> unsep_lines (dump_friends a net uids ug sp rec) = [])
   \<and> (returned_ids (gather net 0 uids) \<noteq> [] \<longrightarrow>
        (rec \<longrightarrow>
           sorted_wrt (\<lambda>x y. y < x) (drop (length uids) (requested (dump_friends a net uids ug sp rec)))
         \<and> set (drop (length uids) (requested (dump_friends a net uids ug sp rec)))
             = set (returned_ids (gather net 0 uids)))
      \<and> (\<not> rec \<longrightarrow> drop (length uids) (requested (dump_friends a net uids ug sp rec)) = uids)
      \<and> set (main_lines (dump_friends a net uids ug sp rec))
          = set (main_items sp (gather net (length uids)
                   (drop (length uids) (requested (dump_friends a net uids ug sp rec)))))
      \<and> set (unsep_lines (dump_friends a net uids ug sp rec))
          \<subseteq> set (unsep_items sp (gather net (length uids)
                   (drop (length uids) (requested (dump_friends a net uids ug sp rec)))))
      \<and> counts (dump_friends a net uids ug sp rec)
          = (length (main_lines (dump_friends a net uids ug sp rec)),
             length (unsep_lines (dump_friends a net uids ug sp rec))))"
proof -
  let ?D = "dump_friends a net uids ug sp rec"
  let ?ids = "returned_ids (gather net 0 uids)"
  have p1: "phase1_ids net uids = [] \<longleftrightarrow> ?ids = []"
    by (simp add: phase1_ids_eq fresh_Nil_iff)
  have req: "requested ?D = (if ?ids = [] then uids else uids @ target_uids net uids rec)"
    using assms by (simp add: dump_friends_def p1 Let_def)
  have A: "take (length uids) (requested ?D) = uids"
    by (simp add: req)
  have B: "requested ?D = uids \<and> counts ?D = (0, 0) \<and> main_lines ?D = [] \<and> unsep_lines ?D = []"
    if "?ids = []"
    using assms that by (simp add: dump_friends_def p1)
  have T: "drop (length uids) (requested ?D) = target_uids net uids rec" if "?ids \<noteq> []"
    using that by (simp add: req)
  have F: "fetched_responses a net uids rec = gather net (length uids) (target_uids net uids rec)"
    if "?ids \<noteq> []"
    using assms that by (simp add: fetched_responses_def p1 phase2_responses_def)
  have C: "sorted_wrt (\<lambda>x y. y < x) (target_uids net uids rec)
           \<and> set (target_uids net uids rec) = set ?ids" if "rec"
    using that
    by (simp add: target_uids_def sorted_desc_strict set_sorted_desc phase1_ids_eq set_fresh)
  have E: "target_uids net uids rec = uids" if "\<not> rec"
    using that by (simp add: target_uids_def)
  have M: "set (main_lines ?D) = set (main_items sp (fetched_responses a net uids rec))"
    by (simp add: dump_friends_lines set_fresh)
  have U: "set (unsep_lines ?D) \<subseteq> set (unsep_items sp (fetched_responses a net uids rec))"
    by (auto simp: dump_friends_lines set_fresh)
  have N: "counts ?D = (length (main_lines ?D), length (unsep_lines ?D))"
    by (rule dump_friends_lines(3))
  show ?thesis
  proof (cases "?ids = []")
    case True
    with A B show ?thesis by simp
  next
    case False
    show ?thesis
      using False A C E M U N unfolding T [OF False] F [OF False] by simp
  qed
qed

theorem phase_targets_witness:
  "is_logged_in demo_api
   \<and> returned_ids (gather patchy_net 0 [''100012345'']) = [''7'', ''8'']
   \<and> requested (dump_friends demo_api patchy_net [''100012345''] False None True)
       = [''100012345'', ''8'', ''7'']
   \<and> sorted_wrt (\<lambda>x y. y < x)
        (drop (length [''100012345''])
           (requested (dump_friends demo_api patchy_net [''100012345''] False None True)))
   \<and> requested (dump_friends demo_api patchy_net [''100012345''] False None False)
       = [''100012345'', ''100012345'']
   \<and> main_lines (dump_friends demo_api demo_net [''100012345''] False None True) = [''9|Bo'']
   \<and> counts (dump_friends demo_api demo_net [''100012345''] False None True) = (1, 0)"
proof -
  have L: "is_logged_in demo_api"
    by (simp add: is_logged_in_def demo_api_def truthy_def)
  have R: "returned_ids (gather patchy_net 0 [''100012345'']) = [''7'', ''8'']"
    by (simp add: gather_def patchy_net_def friends_of_def ann_def)
  have Q: "requested (dump_friends demo_api patchy_net [''100012345''] False None True)
       = [''100012345'', ''8'', ''7'']"
    by (simp add: dump_defs demo_api_def patchy_net_def ann_def)
  have Q': "requested (dump_friends demo_api patchy_net [''100012345''] False None False)
       = [''100012345'', ''100012345'']"
    by (simp add: dump_defs demo_api_def patchy_net_def ann_def)
  have M: "main_lines (dump_friends demo_api demo_net [''100012345''] False None True) = [''9|Bo'']"
    by (simp add: dump_defs demo_api_def demo_net_def ann_def bo_def)
  have N: "counts (dump_friends demo_api demo_net [''100012345''] False None True) = (1, 0)"
    by (simp add: dump_defs demo_api_def demo_net_def ann_def bo_def)
  from phase_targets [OF L, of "[''100012345'']" patchy_net False None True]
  have "sorted_wrt (\<lambda>x y. y < x)
        (drop (length [''100012345''])
           (requested (dump_friends demo_api patchy_net [''100012345''] False None True)))"
    unfolding R by simp
  with L R Q Q' M N show ?thesis by simp
qed

theorem phase1_skipped_counterexample:
  "requested (dump_friends demo_api demo_net [''100012345''] False None False)
     = [''100012345'', ''100012345'']
   \<and> count_list (requested (dump_friends demo_api demo_net [''100012345''] False None False))
       ''100012345'' = 2"
  by (simp add: dump_defs demo_api_def demo_net_def ann_def)

section \<open>The retry loop of the credential login\<close>

lemma str_of_nat_digit: "n < 10 \<Longrightarrow> str_of_nat n = [digit_char n]"
  by (subst str_of_nat.simps) simp

lemma str_of_nat_10: "str_of_nat 10 = ''10''"
  by (subst str_of_nat.simps) (simp add: str_of_nat_digit digit_char_def)

lemma char_count_append: "char_count (xs @ ys) = char_count xs + char_count ys"
  by (simp add: char_count_def)

lemma digit_char_plain: "n < 10 \<Longrightarrow> \<not> (CHR 0x80 \<le> digit_char n \<and> digit_char n < CHR 0xC0)"
proof -
  assume "n < 10"
  then have "n \<in> {0, 1, 2, 3, 4, 5, 6, 7, 8, 9}"
    by auto
  then show ?thesis
    by (auto simp: digit_char_def)
qed

lemma timeout_message_eq:
  "k < 10 \<Longrightarrow> timeout_message lib k
     = style_box lib @ '' TIMEOUT, RETRYING ('' @ [digit_char k] @ ''/10)...''"
  by (simp add: timeout_message_def str_of_nat_digit MAX_API_RETRIES_def str_of_nat_10)

lemma proxy_message_eq:
  "k < 10 \<Longrightarrow> proxy_message lib k
     = style_box lib @ '' PROXY ERROR, RETRYING ('' @ [digit_char k] @ ''/10)...''"
  by (simp add: proxy_message_def str_of_nat_digit MAX_API_RETRIES_def str_of_nat_10)

lemma animate_sleeps_timeout:
  assumes "k < 10"
  shows "animate_sleeps (timeout_message lib k) = char_count (style_box lib) + 29"
  using digit_char_plain [OF assms]
  by (simp add: timeout_message_eq [OF assms] animate_sleeps_def char_count_def)

lemma animate_sleeps_proxy:
  assumes "k < 10"
  shows "animate_sleeps (proxy_message lib k) = char_count (style_box lib) + 33"
  using digit_char_plain [OF assms]
  by (simp add: proxy_message_eq [OF assms] animate_sleeps_def char_count_def)

lemma retry_trace_Suc:
  "retry_trace lib lapi uid pw (Suc n)
     = retry_trace lib lapi uid pw n
       @ [LoginPost uid pw, Animate (retry_message lib (lapi n uid pw) (Suc n))]"
  by (simp add: retry_trace_def)

lemma retry_trace_posts:
  "filter is_login_post (retry_trace lib lapi uid pw n) = replicate n (LoginPost uid pw)"
  by (induction n) (simp_all add: retry_trace_def is_login_post_def replicate_append_same)

lemma length_retry_trace: "length (retry_trace lib lapi uid pw n) = 2 * n"
  by (induction n) (simp_all add: retry_trace_def)

lemma login_loop_retry:
  assumes "retry_count < MAX_API_RETRIES" "is_transient (lapi retry_count uid pw)"
  shows "login_loop lib oauth tapi lapi a uid pw retry_count sent0
           = login_loop lib oauth tapi lapi a uid pw (retry_count + 1)
               (sent0 @ [LoginPost uid pw,
                         Animate (retry_message lib (lapi retry_count uid pw) (retry_count + 1))])"
  using assms
  by (subst login_loop.simps)
     (simp add: is_transient_def retry_message_def split: login_reply.splits)

lemma login_loop_retries:
  assumes "n \<le> MAX_API_RETRIES" "\<forall>j<n. is_transient (lapi j uid pw)"
  shows "login_loop lib oauth tapi lapi a uid pw 0 []
           = login_loop lib oauth tapi lapi a uid pw n (retry_trace lib lapi uid pw n)"
  using assms
proof (induction n)
  case 0
  show ?case by (simp add: retry_trace_def)
next
  case (Suc n)
  have "login_loop lib oauth tapi lapi a uid pw 0 []
          = login_loop lib oauth tapi lapi a uid pw n (retry_trace lib lapi uid pw n)"
    using Suc.prems by (intro Suc.IH) auto
  also have "\<dots> = login_loop lib oauth tapi lapi a uid pw (n + 1)
                     (retry_trace lib lapi uid pw n
                      @ [LoginPost uid pw, Animate (retry_message lib (lapi n uid pw) (n + 1))])"
    using Suc.prems by (intro login_loop_retry) auto
  finally show ?case
    by (simp add: retry_trace_Suc)
qed

lemma login_loop_exhausted:
  "login_loop lib oauth tapi lapi a uid pw MAX_API_RETRIES sent0
     = \<lparr>lr_success = False, lr_status = ''MAX_RETRIES_EXCEEDED'', lr_after = a, lr_trace = sent0\<rparr>"
  by (subst login_loop.simps) simp

lemma handle_login_json_posts:
  "filter is_login_post (lr_trace (handle_login_json lib oauth tapi a sent0 d))
     = filter is_login_post sent0"
  by (simp add: handle_login_json_def is_login_post_def split: option.splits)

lemma handle_login_json_trace:
  "\<exists>rest. lr_trace (handle_login_json lib oauth tapi a sent0 d) = sent0 @ rest"
  by (simp add: handle_login_json_def split: option.splits)

lemma login_loop_final:
  assumes "k < MAX_API_RETRIES" "\<not> is_transient (lapi k uid pw)"
  shows "login_loop lib oauth tapi lapi a uid pw k sent0
           = (case lapi k uid pw of
                LoginTimeout \<Rightarrow>
                  \<lparr>lr_success = False, lr_status = [], lr_after = a, lr_trace = sent0\<rparr>
              | LoginRaised e \<Rightarrow>
                  \<lparr>lr_success = False, lr_status = ''ERROR: '' @ e, lr_after = a,
                   lr_trace = sent0 @ [LoginPost uid pw]\<rparr>
              | LoginResponse response_text body \<Rightarrow>
                  (case body of
                     Inl e \<Rightarrow>
                       \<lparr>lr_success = False, lr_status = ''ERROR: '' @ e, lr_after = a,
                        lr_trace = sent0 @ [LoginPost uid pw]\<rparr>
                   | Inr d \<Rightarrow> handle_login_json lib oauth tapi a (sent0 @ [LoginPost uid pw]) d))"
  using assms
  by (subst login_loop.simps) (simp add: is_transient_def split: login_reply.splits)

lemma login_loop_final_posts:
  assumes "k < MAX_API_RETRIES" "\<not> is_transient (lapi k uid pw)"
  shows "filter is_login_post (lr_trace (login_loop lib oauth tapi lapi a uid pw k sent0))
           = filter is_login_post sent0 @ [LoginPost uid pw]"
proof -
  have p: "is_login_post (LoginPost uid pw)"
    by (simp add: is_login_post_def)
  show ?thesis
    unfolding login_loop_final [of k lapi uid pw lib oauth tapi a sent0, OF assms(1,2)]
    using assms(2) p
    by (simp add: is_transient_def handle_login_json_posts split: login_reply.splits sum.splits)
qed

lemma login_loop_final_trace:
  assumes "k < MAX_API_RETRIES" "\<not> is_transient (lapi k uid pw)"
  shows "take (length sent0 + 1) (lr_trace (login_loop lib oauth tapi lapi a uid pw k sent0))
           = sent0 @ [LoginPost uid pw]"
proof -
  have t: "take (length sent0 + 1) ((sent0 @ [LoginPost uid pw]) @ rest) = sent0 @ [LoginPost uid pw]"
    for rest
    by simp
  have h: "take (length sent0 + 1)
             (lr_trace (handle_login_json lib oauth tapi a (sent0 @ [LoginPost uid pw]) d))
           = sent0 @ [LoginPost uid pw]" for d
    using handle_login_json_trace [of lib oauth tapi a "sent0 @ [LoginPost uid pw]" d] t
    by (metis)
  show ?thesis
    unfolding login_loop_final [of k lapi uid pw lib oauth tapi a sent0, OF assms(1,2)]
    using assms(2) h
    by (simp add: is_transient_def split: login_reply.splits sum.splits)
qed

lemma login_loop_clean_failure:
  assumes "k < MAX_API_RETRIES" "lapi k uid pw = LoginResponse response_text (Inr d)"
    "\<not> contains ''SOCKSHTTPSConnectionPool'' response_text" "\<not> login_succeeded d"
  shows "login_loop lib oauth tapi lapi a uid pw k sent0
           = \<lparr>lr_success = False, lr_status = failure_status lib d, lr_after = a,
              lr_trace = sent0 @ [LoginPost uid pw]\<rparr>"
proof -
  have nt: "\<not> is_transient (lapi k uid pw)"
    using assms(2,3) by (simp add: is_transient_def)
  have h: "handle_login_json lib oauth tapi a s d
             = \<lparr>lr_success = False, lr_status = failure_status lib d, lr_after = a, lr_trace = s\<rparr>" for s
    using assms(4) unfolding handle_login_json_def login_succeeded_def by (rule if_not_P)
  show ?thesis
    unfolding login_loop_final [of k lapi uid pw lib oauth tapi a sent0, OF assms(1) nt]
    by (simp add: assms(2) h)
qed

lemma login_sustained:
  assumes "\<forall>k<10. is_transient (lapi k uid pw)"
  shows "login_with_credentials lib oauth tapi lapi a uid pw
          = \<lparr>lr_success = False, lr_status = ''MAX_RETRIES_EXCEEDED'', lr_after = a,
             lr_trace = retry_trace lib lapi uid pw 10\<rparr>"
proof -
  have "login_loop lib oauth tapi lapi a uid pw 0 []
          = login_loop lib oauth tapi lapi a uid pw 10 (retry_trace lib lapi uid pw 10)"
    using assms by (intro login_loop_retries) (auto simp: MAX_API_RETRIES_def)
  also have "\<dots> = \<lparr>lr_success = False, lr_status = ''MAX_RETRIES_EXCEEDED'', lr_after = a,
                     lr_trace = retry_trace lib lapi uid pw 10\<rparr>"
    using login_loop_exhausted [of lib oauth tapi lapi a uid pw "retry_trace lib lapi uid pw 10"]
    by (simp add: MAX_API_RETRIES_def)
  finally show ?thesis
    by (simp add: login_with_credentials_def)
qed

lemma login_recovered:
  assumes n: "n < 10" and tr: "\<forall>k<n. is_transient (lapi k uid pw)"
    and fin: "\<not> is_transient (lapi n uid pw)"
  shows "take (2 * n + 1) (lr_trace (login_with_credentials lib oauth tapi lapi a uid pw))
           = retry_trace lib lapi uid pw n @ [LoginPost uid pw]
         \<and> filter is_login_post (lr_trace (login_with_credentials lib oauth tapi lapi a uid pw))
             = replicate (n + 1) (LoginPost uid pw)"
proof -
  have eq: "login_loop lib oauth tapi lapi a uid pw 0 []
          = login_loop lib oauth tapi lapi a uid pw n (retry_trace lib lapi uid pw n)"
    using n tr by (intro login_loop_retries) (auto simp: MAX_API_RETRIES_def)
  have posts: "filter is_login_post
                 (lr_trace (login_loop lib oauth tapi lapi a uid pw n (retry_trace lib lapi uid pw n)))
               = filter is_login_post (retry_trace lib lapi uid pw n) @ [LoginPost uid pw]"
    using n fin by (intro login_loop_final_posts) (auto simp: MAX_API_RETRIES_def)
  have front: "take (length (retry_trace lib lapi uid pw n) + 1)
                 (lr_trace (login_loop lib oauth tapi lapi a uid pw n (retry_trace lib lapi uid pw n)))
               = retry_trace lib lapi uid pw n @ [LoginPost uid pw]"
    using n fin by (intro login_loop_final_trace) (auto simp: MAX_API_RETRIES_def)
  show ?thesis
    using eq posts front
    by (simp add: login_with_credentials_def retry_trace_posts length_retry_trace
        replicate_append_same)
qed

text \<open>
  C5. The ceiling \<open>MAX_API_RETRIES = 10\<close> of \<open>login_with_credentials\<close> counts attempts. After
  every transient reply (a timeout, or a body holding \<open>SOCKSHTTPSConnectionPool\<close>) the call
  animates the retry message, in which the counter is already increased, and then posts the
  same identifier and password again if fewer than ten posts have been made. When ten
  replies in a row are transient, the trace is ten times a post followed by its message:
  ten posts, that is nine retries, and after the tenth message the call returns
  \<open>MAX_RETRIES_EXCEEDED\<close> with the credentials untouched. When the first \<open>n < 10\<close> replies are
  transient and the next is not, the trace starts with \<open>n\<close> times a post and its message and
  one more post, and holds \<open>n + 1\<close> posts, that is \<open>n\<close> retries. On a clean terminal failure
  at the first reply it retries zero times: one post, no message, and the status of that
  reply. A retry is not immediate: animating the message sleeps once per character and once
  for the newline, which for each of the retries is as long as the prefix box and 29
  characters after a timeout, 33 after a proxy error; the pause does not grow from one
  retry to the next.
\<close>

theorem login_retry_ceiling:
  "MAX_API_RETRIES = 10
   \<and> ((\<forall>k<10. is_transient (lapi k uid pw)) \<longrightarrow>
        login_with_credentials lib oauth tapi lapi a uid pw
          = \<lparr>lr_success = False, lr_status = ''MAX_RETRIES_EXCEEDED'', lr_after = a,
             lr_trace = retry_trace lib lapi uid pw 10\<rparr>)
   \<and> (n < 10 \<and> (\<forall>k<n. is_transient (lapi k uid pw)) \<and> \<not> is_transient (lapi n uid pw) \<longrightarrow>
        take (2 * n + 1) (lr_trace (login_with_credentials lib oauth tapi lapi a uid pw))
          = retry_trace lib lapi uid pw n @ [LoginPost uid pw]
        \<and> filter is_login_post (lr_trace (login_with_credentials lib oauth tapi lapi a uid pw))
            = replicate (n + 1) (LoginPost uid pw))
   \<and> (lapi 0 uid pw = LoginResponse response_text (Inr d)
        \<and> \<not> contains ''SOCKSHTTPSConnectionPool'' response_text \<and> \<not> login_succeeded d \<longrightarrow>
        login_with_credentials lib oauth tapi lapi a uid pw
          = \<lparr>lr_success = False, lr_status = failure_status lib d, lr_after = a,
             lr_trace = [LoginPost uid pw]\<rparr>)
   \<and> retry_trace lib lapi uid pw 0 = []
   \<and> retry_trace lib lapi uid pw (Suc m)
       = retry_trace lib lapi uid pw m
         @ [LoginPost uid pw, Animate (retry_message lib (lapi m uid pw) (Suc m))]
   \<and> filter is_login_post (retry_trace lib lapi uid pw m) = replicate m (LoginPost uid pw)
   \<and> (j < 10 \<longrightarrow>
        retry_message lib LoginTimeout j
          = style_box lib @ '' TIMEOUT, RETRYING ('' @ [''0123456789'' ! j] @ ''/10)...''
        \<and> retry_message lib (LoginResponse rtext body) j
          = style_box lib @ '' PROXY ERROR, RETRYING ('' @ [''0123456789'' ! j] @ ''/10)...''
        \<and> animate_sleeps (retry_message lib LoginTimeout j) = char_count (style_box lib) + 29
        \<and> animate_sleeps (retry_message lib (LoginResponse rtext body) j)
            = char_count (style_box lib) + 33)
   \<and> retry_message lib LoginTimeout 10 = style_box lib @ '' TIMEOUT, RETRYING (10/10)...''
   \<and> retry_message lib (LoginResponse rtext body) 10
       = style_box lib @ '' PROXY ERROR, RETRYING (10/10)...''"
proof -
  have c1: "MAX_API_RETRIES = 10"
    by (simp add: MAX_API_RETRIES_def)
  have c2: "(\<forall>k<10. is_transient (lapi k uid pw)) \<longrightarrow>
        login_with_credentials lib oauth tapi lapi a uid pw
          = \<lparr>lr_success = False, lr_status = ''MAX_RETRIES_EXCEEDED'', lr_after = a,
             lr_trace = retry_trace lib lapi uid pw 10\<rparr>"
    using login_sustained [of lapi uid pw lib oauth tapi a] by blast
  have c3: "n < 10 \<and> (\<forall>k<n. is_transient (lapi k uid pw)) \<and> \<not> is_transient (lapi n uid pw) \<longrightarrow>
        take (2 * n + 1) (lr_trace (login_with_credentials lib oauth tapi lapi a uid pw))
          = retry_trace lib lapi uid pw n @ [LoginPost uid pw]
        \<and> filter is_login_post (lr_trace (login_with_credentials lib oauth tapi lapi a uid pw))
            = replicate (n + 1) (LoginPost uid pw)"
    using login_recovered [of n lapi uid pw lib oauth tapi a] by blast
  have c4: "lapi 0 uid pw = LoginResponse response_text (Inr d)
        \<and> \<not> contains ''SOCKSHTTPSConnectionPool'' response_text \<and> \<not> login_succeeded d \<longrightarrow>
        login_with_credentials lib oauth tapi lapi a uid pw
          = \<lparr>lr_success = False, lr_status = failure_status lib d, lr_after = a,
             lr_trace = [LoginPost uid pw]\<rparr>"
    using login_loop_clean_failure [of 0 lapi uid pw response_text d lib oauth tapi a "[]"]
    by (simp add: login_with_credentials_def MAX_API_RETRIES_def)
  have c5: "retry_trace lib lapi uid pw 0 = []"
    by (simp add: retry_trace_def)
  have c6: "retry_trace lib lapi uid pw (Suc m)
       = retry_trace lib lapi uid pw m
         @ [LoginPost uid pw, Animate (retry_message lib (lapi m uid pw) (Suc m))]"
    by (rule retry_trace_Suc)
  have c7: "filter is_login_post (retry_trace lib lapi uid pw m) = replicate m (LoginPost uid pw)"
    by (rule retry_trace_posts)
  have c8: "j < 10 \<longrightarrow>
        retry_message lib LoginTimeout j
          = style_box lib @ '' TIMEOUT, RETRYING ('' @ [''0123456789'' ! j] @ ''/10)...''
        \<and> retry_message lib (LoginResponse rtext body) j
          = style_box lib @ '' PROXY ERROR, RETRYING ('' @ [''0123456789'' ! j] @ ''/10)...''
        \<and> animate_sleeps (retry_message lib LoginTimeout j) = char_count (style_box lib) + 29
        \<and> animate_sleeps (retry_message lib (LoginResponse rtext body) j)
            = char_count (style_box lib) + 33"
    using timeout_message_eq [of j lib] proxy_message_eq [of j lib]
      animate_sleeps_timeout [of j lib] animate_sleeps_proxy [of j lib]
    by (simp add: retry_message_def digit_char_def)
  have c9: "retry_message lib LoginTimeout 10 = style_box lib @ '' TIMEOUT, RETRYING (10/10)...''"
    by (simp add: retry_message_def timeout_message_def str_of_nat_10 MAX_API_RETRIES_def)
  have c10: "retry_message lib (LoginResponse rtext body) 10
       = style_box lib @ '' PROXY ERROR, RETRYING (10/10)...''"
    by (simp add: retry_message_def proxy_message_def str_of_nat_10 MAX_API_RETRIES_def)
  show ?thesis
    by (intro conjI c1 c2 c3 c4 c5 c6 c7 c8 c9 c10)
qed

theorem login_retry_ceiling_witness:
  "login_with_credentials ascii_library oauth_down token_down login_timeout demo_api ''u'' ''p''
     = \<lparr>lr_success = False, lr_status = ''MAX_RETRIES_EXCEEDED'', lr_after = demo_api,
        lr_trace = retry_trace ascii_library login_timeout ''u'' ''p'' 10\<rparr>
   \<and> take 7 (lr_trace (login_with_credentials ascii_library oauth_down token_down
                          login_proxy_then_rejected demo_api ''u'' ''p''))
       = [LoginPost ''u'' ''p'', Animate ''[+] PROXY ERROR, RETRYING (1/10)...'',
          LoginPost ''u'' ''p'', Animate ''[+] PROXY ERROR, RETRYING (2/10)...'',
          LoginPost ''u'' ''p'', Animate ''[+] PROXY ERROR, RETRYING (3/10)...'',
          LoginPost ''u'' ''p'']
   \<and> filter is_login_post
        (lr_trace (login_with_credentials ascii_library oauth_down token_down
                     login_proxy_then_rejected demo_api ''u'' ''p''))
       = replicate 4 (LoginPost ''u'' ''p'')
   \<and> login_with_credentials ascii_library oauth_down token_down login_rejected demo_api ''u'' ''p''
       = \<lparr>lr_success = False, lr_status = ''INVALID_CREDENTIALS'', lr_after = demo_api,
          lr_trace = [LoginPost ''u'' ''p'']\<rparr>
   \<and> animate_sleeps (retry_message ascii_library LoginTimeout 1) = 32"
proof -
  have t: "\<forall>k<10. is_transient (login_timeout k ''u'' ''p'')"
    by (simp add: is_transient_def login_timeout_def)
  have p: "(3::nat) < 10 \<and> (\<forall>k<3. is_transient (login_proxy_then_rejected k ''u'' ''p''))
           \<and> \<not> is_transient (login_proxy_then_rejected 3 ''u'' ''p'')"
    by (simp add: is_transient_def login_proxy_then_rejected_def)
  have r: "login_rejected 0 ''u'' ''p'' = LoginResponse ''{}'' (Inr rejected)
           \<and> \<not> contains ''SOCKSHTTPSConnectionPool'' ''{}'' \<and> \<not> login_succeeded rejected"
    by (simp add: login_rejected_def login_succeeded_def rejected_def)
  have f: "failure_status ascii_library rejected = ''INVALID_CREDENTIALS''"
    by (simp add: failure_status_def rejected_def ascii_library_def ascii_lower_def)
  have tr: "retry_trace ascii_library login_proxy_then_rejected ''u'' ''p'' 3 @ [LoginPost ''u'' ''p'']
       = [LoginPost ''u'' ''p'', Animate ''[+] PROXY ERROR, RETRYING (1/10)...'',
          LoginPost ''u'' ''p'', Animate ''[+] PROXY ERROR, RETRYING (2/10)...'',
          LoginPost ''u'' ''p'', Animate ''[+] PROXY ERROR, RETRYING (3/10)...'',
          LoginPost ''u'' ''p'']"
    by (simp add: retry_trace_def upt_rec retry_message_def login_proxy_then_rejected_def
        proxy_message_eq digit_char_def ascii_library_def)
  have j: "(1::nat) < 10"
    by simp
  have s: "char_count (style_box ascii_library) + 29 = 32"
    by (simp add: char_count_def ascii_library_def)
  from login_retry_ceiling [of login_timeout "''u''" "''p''" ascii_library oauth_down token_down demo_api]
  have A: "login_with_credentials ascii_library oauth_down token_down login_timeout demo_api ''u'' ''p''
     = \<lparr>lr_success = False, lr_status = ''MAX_RETRIES_EXCEEDED'', lr_after = demo_api,
        lr_trace = retry_trace ascii_library login_timeout ''u'' ''p'' 10\<rparr>"
    using t by blast
  from login_retry_ceiling [of login_proxy_then_rejected "''u''" "''p''" ascii_library oauth_down
      token_down demo_api 3]
  have B: "take (2 * 3 + 1) (lr_trace (login_with_credentials ascii_library oauth_down token_down
                          login_proxy_then_rejected demo_api ''u'' ''p''))
             = retry_trace ascii_library login_proxy_then_rejected ''u'' ''p'' 3 @ [LoginPost ''u'' ''p'']
           \<and> filter is_login_post
        (lr_trace (login_with_credentials ascii_library oauth_down token_down
                     login_proxy_then_rejected demo_api ''u'' ''p''))
       = replicate (3 + 1) (LoginPost ''u'' ''p'')"
    using p by blast
  from login_retry_ceiling [of login_rejected "''u''" "''p''" ascii_library oauth_down token_down
      demo_api 0 "''{}''" rejected]
  have C: "login_with_credentials ascii_library oauth_down token_down login_rejected demo_api ''u'' ''p''
       = \<lparr>lr_success = False, lr_status = failure_status ascii_library rejected, lr_after = demo_api,
          lr_trace = [LoginPost ''u'' ''p'']\<rparr>"
    using r by blast
  from login_retry_ceiling [of login_rejected "''u''" "''p''" ascii_library oauth_down token_down
      demo_api 0 "''{}''" rejected 0 1 "''{}''" "Inr rejected"]
  have D: "animate_sleeps (retry_message ascii_library LoginTimeout 1)
             = char_count (style_box ascii_library) + 29"
    using j by blast
  show ?thesis
    using A B C D f tr s by simp
qed

text \<open>
  Zero retries is one post, so ten retries would be eleven posts; under timeouts without end
  the call posts ten times, which is nine retries, and returns \<open>MAX_RETRIES_EXCEEDED\<close>. And
  the second post does not follow the first timeout at once: the animated message comes
  between them, with 32 sleeps for this prefix box.
\<close>

theorem login_retries_counterexample:
  "length (filter is_login_post
             (lr_trace (login_with_credentials ascii_library oauth_down token_down login_timeout
                          demo_api ''u'' ''p''))) = 10
   \<and> lr_status (login_with_credentials ascii_library oauth_down token_down login_timeout
                   demo_api ''u'' ''p'') = ''MAX_RETRIES_EXCEEDED''
   \<and> length (filter is_login_post
               (lr_trace (login_with_credentials ascii_library oauth_down token_down login_rejected
                            demo_api ''u'' ''p''))) = 1
   \<and> take 3 (lr_trace (login_with_credentials ascii_library oauth_down token_down login_timeout
                          demo_api ''u'' ''p''))
       = [LoginPost ''u'' ''p'', Animate ''[+] TIMEOUT, RETRYING (1/10)...'', LoginPost ''u'' ''p'']
   \<and> animate_sleeps ''[+] TIMEOUT, RETRYING (1/10)...'' = 32"
proof -
  have t: "\<forall>k<10. is_transient (login_timeout k ''u'' ''p'')"
    by (simp add: is_transient_def login_timeout_def)
  have A: "login_with_credentials ascii_library oauth_down token_down login_timeout demo_api ''u'' ''p''
     = \<lparr>lr_success = False, lr_status = ''MAX_RETRIES_EXCEEDED'', lr_after = demo_api,
        lr_trace = retry_trace ascii_library login_timeout ''u'' ''p'' 10\<rparr>"
    using t by (rule login_sustained)
  have B: "take 3 (retry_trace ascii_library login_timeout ''u'' ''p'' 10)
             = [LoginPost ''u'' ''p'', Animate ''[+] TIMEOUT, RETRYING (1/10)...'', LoginPost ''u'' ''p'']"
    by (simp add: retry_trace_def upt_rec retry_message_def login_timeout_def
        timeout_message_eq digit_char_def ascii_library_def)
  have C: "login_with_credentials ascii_library oauth_down token_down login_rejected demo_api ''u'' ''p''
       = \<lparr>lr_success = False, lr_status = failure_status ascii_library rejected, lr_after = demo_api,
          lr_trace = [LoginPost ''u'' ''p'']\<rparr>"
    using login_loop_clean_failure [of 0 login_rejected "''u''" "''p''" "''{}''" rejected
        ascii_library oauth_down token_down demo_api "[]"]
    by (simp add: login_with_credentials_def MAX_API_RETRIES_def login_rejected_def
        login_succeeded_def rejected_def)
  have D: "animate_sleeps ''[+] TIMEOUT, RETRYING (1/10)...'' = 32"
    by (simp add: animate_sleeps_def char_count_def)
  show ?thesis
    using B D by (simp add: A C retry_trace_posts is_login_post_def)
qed

section \<open>Classifying a rejected login\<close>

lemma contains_iff: "contains needle hay \<longleftrightarrow> (\<exists>ps ss. hay = ps @ needle @ ss)"
proof (induction hay)
  case Nil
  show ?case by auto
next
  case (Cons c cs)
  show ?case
  proof
    assume "contains needle (c # cs)"
    then consider "prefix needle (c # cs)" | "contains needle cs" by auto
    then show "\<exists>ps ss. c # cs = ps @ needle @ ss"
    proof cases
      case 1
      then obtain ss where "c # cs = needle @ ss" by (auto simp: prefix_def)
      then have "c # cs = [] @ needle @ ss" by simp
      then show ?thesis by blast
    next
      case 2
      with Cons.IH obtain ps ss where "cs = ps @ needle @ ss" by blast
      then have "c # cs = (c # ps) @ needle @ ss" by simp
      then show ?thesis by blast
    qed
  next
    assume "\<exists>ps ss. c # cs = ps @ needle @ ss"
    then obtain ps ss where e: "c # cs = ps @ needle @ ss" by blast
    show "contains needle (c # cs)"
    proof (cases ps)
      case Nil
      with e have "prefix needle (c # cs)" by (simp add: prefix_def)
      then show ?thesis by simp
    next
      case (Cons p ps')
      with e have "cs = ps' @ needle @ ss" by simp
      with Cons.IH have "contains needle cs" by blast
      then show ?thesis by simp
    qed
  qed
qed

lemma contains_map:
  "contains keyword (map f msg) \<longleftrightarrow> (\<exists>ps w ss. msg = ps @ w @ ss \<and> map f w = keyword)"
proof
  assume "contains keyword (map f msg)"
  then obtain ps ss where e: "map f msg = ps @ keyword @ ss"
    by (auto simp: contains_iff)
  define w where "w = take (length keyword) (drop (length ps) msg)"
  have "drop (length ps) msg = w @ drop (length keyword) (drop (length ps) msg)"
    unfolding w_def by (rule append_take_drop_id [symmetric])
  then have split: "msg = take (length ps) msg @ w @ drop (length keyword) (drop (length ps) msg)"
    by (metis append_take_drop_id)
  have "map f w = take (length keyword) (drop (length ps) (map f msg))"
    by (simp add: w_def take_map drop_map)
  also have "\<dots> = keyword"
    unfolding e by simp
  finally have "map f w = keyword" .
  with split show "\<exists>ps w ss. msg = ps @ w @ ss \<and> map f w = keyword"
    by blast
next
  assume "\<exists>ps w ss. msg = ps @ w @ ss \<and> map f w = keyword"
  then obtain ps w ss where "msg = ps @ w @ ss" "map f w = keyword"
    by blast
  then have "map f msg = map f ps @ keyword @ map f ss"
    by auto
  then show "contains keyword (map f msg)"
    unfolding contains_iff by blast
qed

lemma table_lookup:
  assumes "distinct (map fst tbl)" "k \<notin> fst ` set tbl"
  shows "((case map_of tbl c of None \<Rightarrow> c | Some d \<Rightarrow> d) = k) = (c = k \<or> (c, k) \<in> set tbl)"
proof (cases "map_of tbl c")
  case None
  then have "c \<notin> fst ` set tbl"
    by (simp add: map_of_eq_None_iff)
  then have "(c, k) \<notin> set tbl"
    by force
  with None show ?thesis
    by simp
next
  case (Some d)
  then have in_tbl: "(c, d) \<in> set tbl"
    by (rule map_of_SomeD)
  then have "c \<in> fst ` set tbl"
    by force
  with assms(2) have "c \<noteq> k"
    by blast
  moreover have "(c, k) \<in> set tbl \<longleftrightarrow> d = k"
    using map_of_is_SomeI [OF assms(1)] Some in_tbl by fastforce
  ultimately show ?thesis
    using Some by simp
qed

lemma ascii_lower_same:
  assumes "k \<notin> capitals"
  shows "(ascii_lower c = k) = same_letter c k"
proof -
  have z: "zip ''ABCDEFGHIJKLMNOPQRSTUVWXYZ'' ''abcdefghijklmnopqrstuvwxyz''
        = [(CHR ''A'', CHR ''a''), (CHR ''B'', CHR ''b''), (CHR ''C'', CHR ''c''),
        (CHR ''D'', CHR ''d''), (CHR ''E'', CHR ''e''), (CHR ''F'', CHR ''f''), (CHR ''G'', CHR ''g''),
        (CHR ''H'', CHR ''h''), (CHR ''I'', CHR ''i''), (CHR ''J'', CHR ''j''), (CHR ''K'', CHR ''k''),
        (CHR ''L'', CHR ''l''), (CHR ''M'', CHR ''m''), (CHR ''N'', CHR ''n''), (CHR ''O'', CHR ''o''),
        (CHR ''P'', CHR ''p''), (CHR ''Q'', CHR ''q''), (CHR ''R'', CHR ''r''), (CHR ''S'', CHR ''s''),
        (CHR ''T'', CHR ''t''), (CHR ''U'', CHR ''u''), (CHR ''V'', CHR ''v''), (CHR ''W'', CHR ''w''),
        (CHR ''X'', CHR ''x''), (CHR ''Y'', CHR ''y''), (CHR ''Z'', CHR ''z'')]"
    by simp
  have d: "distinct (map fst (zip ''ABCDEFGHIJKLMNOPQRSTUVWXYZ'' ''abcdefghijklmnopqrstuvwxyz''))"
    by simp
  have n: "k \<notin> fst ` set (zip ''ABCDEFGHIJKLMNOPQRSTUVWXYZ'' ''abcdefghijklmnopqrstuvwxyz'')"
    using assms by (simp add: capitals_def)
  show ?thesis
    unfolding ascii_lower_def same_letter_def z [symmetric]
    by (rule table_lookup [OF d n])
qed

lemma map_ascii_lower_same:
  assumes "set keyword \<inter> capitals = {}"
  shows "(map ascii_lower w = keyword) = list_all2 same_letter w keyword"
proof -
  have "(map ascii_lower w = keyword) = list_all2 (\<lambda>c k. ascii_lower c = k) w keyword"
    by (induction w arbitrary: keyword) (auto simp: list_all2_Cons1)
  also have "\<dots> = list_all2 same_letter w keyword"
    using assms by (intro list.rel_cong refl ascii_lower_same) auto
  finally show ?thesis .
qed

lemma contains_mentions:
  assumes "set keyword \<inter> capitals = {}"
  shows "contains keyword (map ascii_lower msg) = mentions keyword msg"
  unfolding contains_map mentions_def map_ascii_lower_same [OF assms] by (rule refl)

lemma failure_status_ascii:
  assumes "ascii_agrees lib" "is_ascii msg"
  shows "contains ''checkpoint'' (str_lower lib msg) = mentions ''checkpoint'' msg"
    "contains ''two-factor'' (str_lower lib msg) = mentions ''two-factor'' msg"
    "contains ''invalid'' (str_lower lib msg) = mentions ''invalid'' msg"
    "contains ''incorrect'' (str_lower lib msg) = mentions ''incorrect'' msg"
    "contains ''wrong'' (str_lower lib msg) = mentions ''wrong'' msg"
proof -
  have l: "str_lower lib msg = map ascii_lower msg"
    using assms by (simp add: ascii_agrees_def)
  show "contains ''checkpoint'' (str_lower lib msg) = mentions ''checkpoint'' msg"
    unfolding l by (rule contains_mentions) (simp add: capitals_def)
  show "contains ''two-factor'' (str_lower lib msg) = mentions ''two-factor'' msg"
    unfolding l by (rule contains_mentions) (simp add: capitals_def)
  show "contains ''invalid'' (str_lower lib msg) = mentions ''invalid'' msg"
    unfolding l by (rule contains_mentions) (simp add: capitals_def)
  show "contains ''incorrect'' (str_lower lib msg) = mentions ''incorrect'' msg"
    unfolding l by (rule contains_mentions) (simp add: capitals_def)
  show "contains ''wrong'' (str_lower lib msg) = mentions ''wrong'' msg"
    unfolding l by (rule contains_mentions) (simp add: capitals_def)
qed

lemma login_rejected_after:
  assumes "n < 10" "\<forall>k<n. is_transient (lapi k uid pw)"
    and "lapi n uid pw = LoginResponse response_text (Inr d)"
    and "\<not> contains ''SOCKSHTTPSConnectionPool'' response_text" "\<not> login_succeeded d"
  shows "login_with_credentials lib oauth tapi lapi a uid pw
          = \<lparr>lr_success = False, lr_status = failure_status lib d, lr_after = a,
             lr_trace = retry_trace lib lapi uid pw n @ [LoginPost uid pw]\<rparr>"
proof -
  have "login_loop lib oauth tapi lapi a uid pw 0 []
          = login_loop lib oauth tapi lapi a uid pw n (retry_trace lib lapi uid pw n)"
    using assms(1,2) by (intro login_loop_retries) (auto simp: MAX_API_RETRIES_def)
  also have "\<dots> = \<lparr>lr_success = False, lr_status = failure_status lib d, lr_after = a,
                     lr_trace = retry_trace lib lapi uid pw n @ [LoginPost uid pw]\<rparr>"
    using login_loop_clean_failure
            [of n lapi uid pw response_text d lib oauth tapi a "retry_trace lib lapi uid pw n"]
          assms
    by (simp add: MAX_API_RETRIES_def)
  finally show ?thesis
    by (simp add: login_with_credentials_def)
qed

text \<open>
  C8. For every parsed login response that is no success (and no proxy error), reached after
  any number of retries below the ceiling, \<open>login_with_credentials\<close> fails, leaves the
  credentials as they were, and takes its status from the response's message, scanned in
  its lower-cased form: \<open>CHECKPOINT\<close> when that contains \<open>checkpoint\<close> or \<open>two-factor\<close>;
  otherwise \<open>INVALID_CREDENTIALS\<close> when it contains \<open>invalid\<close>, \<open>incorrect\<close> or \<open>wrong\<close>;
  otherwise the message itself, unchanged. With a library that lower-cases ASCII text as
  Python does, on an ASCII message this is the scan without regard to case: a keyword counts
  when some part of the message spells it in any mix of small and capital letters. A
  response with no message field gives \<open>LOGIN_FAILED\<close>.
\<close>

theorem failure_classification:
  assumes "n < 10" "\<forall>k<n. is_transient (lapi k uid pw)"
    and "lapi n uid pw = LoginResponse response_text (Inr d)"
    and "\<not> contains ''SOCKSHTTPSConnectionPool'' response_text" "\<not> login_succeeded d"
  shows "\<not> lr_success (login_with_credentials lib oauth tapi lapi a uid pw)
   \<and> lr_after (login_with_credentials lib oauth tapi lapi a uid pw) = a
   \<and> (\<forall>msg. lj_message d = Some msg \<longrightarrow>
         lr_status (login_with_credentials lib oauth tapi lapi a uid pw)
           = (if contains ''checkpoint'' (str_lower lib msg) \<or> contains ''two-factor'' (str_lower lib msg)
              then ''CHECKPOINT''
              else if contains ''invalid'' (str_lower lib msg) \<or> contains ''incorrect'' (str_lower lib msg)
                      \<or> contains ''wrong'' (str_lower lib msg)
              then ''INVALID_CREDENTIALS''
              else msg))
   \<and> (\<forall>msg. lj_message d = Some msg \<and> ascii_agrees lib \<and> is_ascii msg \<longrightarrow>
         lr_status (login_with_credentials lib oauth tapi lapi a uid pw)
           = (if mentions ''checkpoint'' msg \<or> mentions ''two-factor'' msg then ''CHECKPOINT''
              else if mentions ''invalid'' msg \<or> mentions ''incorrect'' msg \<or> mentions ''wrong'' msg
              then ''INVALID_CREDENTIALS''
              else msg))
   \<and> (lj_message d = None \<and> ascii_agrees lib \<longrightarrow>
         lr_status (login_with_credentials lib oauth tapi lapi a uid pw) = ''LOGIN_FAILED'')"
proof -
  have R: "login_with_credentials lib oauth tapi lapi a uid pw
          = \<lparr>lr_success = False, lr_status = failure_status lib d, lr_after = a,
             lr_trace = retry_trace lib lapi uid pw n @ [LoginPost uid pw]\<rparr>"
    using assms by (rule login_rejected_after)
  have S: "failure_status lib d
           = (if contains ''checkpoint'' (str_lower lib msg) \<or> contains ''two-factor'' (str_lower lib msg)
              then ''CHECKPOINT''
              else if contains ''invalid'' (str_lower lib msg) \<or> contains ''incorrect'' (str_lower lib msg)
                      \<or> contains ''wrong'' (str_lower lib msg)
              then ''INVALID_CREDENTIALS''
              else msg)"
    if "lj_message d = Some msg" for msg
    using that by (simp add: failure_status_def)
  have T: "failure_status lib d
             = (if mentions ''checkpoint'' msg \<or> mentions ''two-factor'' msg then ''CHECKPOINT''
                else if mentions ''invalid'' msg \<or> mentions ''incorrect'' msg \<or> mentions ''wrong'' msg
                then ''INVALID_CREDENTIALS''
                else msg)"
    if "lj_message d = Some msg" "ascii_agrees lib" "is_ascii msg" for msg
    unfolding S [OF that(1)] failure_status_ascii [OF that(2,3)] by (rule refl)
  have N: "failure_status lib d = ''LOGIN_FAILED''" if "lj_message d = None" "ascii_agrees lib"
  proof -
    have "str_lower lib [] = []"
      using that(2) by (simp add: ascii_agrees_def is_ascii_def)
    then show ?thesis
      using that(1) by (simp add: failure_status_def)
  qed
  show ?thesis
    unfolding R using S T N by simp
qed

lemma ascii_library_agrees: "ascii_agrees ascii_library"
  by (simp add: ascii_agrees_def ascii_library_def)

theorem failure_classification_witness:
  "lr_status (login_with_credentials ascii_library oauth_down token_down login_proxy_then_rejected
                demo_api ''u'' ''p'')
     = ''INVALID_CREDENTIALS''
   \<and> lr_status (login_with_credentials ascii_library oauth_down token_down
                  (login_says ''Invalid login: CheckPoint required'') demo_api ''u'' ''p'')
     = ''CHECKPOINT''
   \<and> lr_status (login_with_credentials ascii_library oauth_down token_down (login_says ''Server busy'')
                  demo_api ''u'' ''p'')
     = ''Server busy''
   \<and> lr_after (login_with_credentials ascii_library oauth_down token_down (login_says ''Server busy'')
                 demo_api ''u'' ''p'')
     = demo_api
   \<and> lr_status (login_with_credentials ascii_library oauth_down token_down login_silent
                  demo_api ''u'' ''p'')
     = ''LOGIN_FAILED''"
proof -
  have p: "(3::nat) < 10" "\<forall>k<3. is_transient (login_proxy_then_rejected k ''u'' ''p'')"
    "login_proxy_then_rejected 3 ''u'' ''p'' = LoginResponse ''{}'' (Inr rejected)"
    "\<not> contains ''SOCKSHTTPSConnectionPool'' ''{}''" "\<not> login_succeeded rejected"
    by (simp_all add: is_transient_def login_proxy_then_rejected_def login_succeeded_def rejected_def)
  have A: "lr_status (login_with_credentials ascii_library oauth_down token_down
                        login_proxy_then_rejected demo_api ''u'' ''p'')
     = ''INVALID_CREDENTIALS''"
    using failure_classification
            [where lapi = login_proxy_then_rejected and n = 3 and uid = "''u''" and pw = "''p''"
               and oauth = oauth_down and tapi = token_down and a = demo_api
               and lib = ascii_library, OF p]
    by (simp add: rejected_def ascii_library_def ascii_lower_def)
  have q: "(0::nat) < 10" "\<forall>k<0. is_transient (login_says m k ''u'' ''p'')"
    "login_says m 0 ''u'' ''p''
       = LoginResponse ''{}'' (Inr \<lparr>lj_status = Some ''error'', lj_cookies = None, lj_message = Some m\<rparr>)"
    "\<not> contains ''SOCKSHTTPSConnectionPool'' ''{}''"
    "\<not> login_succeeded \<lparr>lj_status = Some ''error'', lj_cookies = None, lj_message = Some m\<rparr>" for m
    by (simp_all add: login_says_def login_succeeded_def)
  have asc: "is_ascii ''Invalid login: CheckPoint required''"
    by (simp add: is_ascii_def)
  have men: "mentions ''checkpoint'' ''Invalid login: CheckPoint required''"
    unfolding contains_mentions [of "''checkpoint''", symmetric, unfolded capitals_def, simplified]
    by (simp add: ascii_lower_def)
  have B0: "lr_status (login_with_credentials ascii_library oauth_down token_down
                  (login_says ''Invalid login: CheckPoint required'') demo_api ''u'' ''p'')
     = (if mentions ''checkpoint'' ''Invalid login: CheckPoint required''
           \<or> mentions ''two-factor'' ''Invalid login: CheckPoint required''
        then ''CHECKPOINT''
        else if mentions ''invalid'' ''Invalid login: CheckPoint required''
                \<or> mentions ''incorrect'' ''Invalid login: CheckPoint required''
                \<or> mentions ''wrong'' ''Invalid login: CheckPoint required''
        then ''INVALID_CREDENTIALS''
        else ''Invalid login: CheckPoint required'')"
    by (rule failure_classification
            [where lapi = "login_says ''Invalid login: CheckPoint required''" and n = 0
               and uid = "''u''" and pw = "''p''"
               and oauth = oauth_down and tapi = token_down and a = demo_api
               and lib = ascii_library, OF q,
             THEN conjunct2, THEN conjunct2, THEN conjunct2, THEN conjunct1, rule_format])
       (simp add: ascii_library_agrees asc)
  have B: "lr_status (login_with_credentials ascii_library oauth_down token_down
                  (login_says ''Invalid login: CheckPoint required'') demo_api ''u'' ''p'')
     = ''CHECKPOINT''"
    unfolding B0 using men by simp
  have C: "lr_status (login_with_credentials ascii_library oauth_down token_down
                        (login_says ''Server busy'') demo_api ''u'' ''p'')
     = ''Server busy''
   \<and> lr_after (login_with_credentials ascii_library oauth_down token_down (login_says ''Server busy'')
                 demo_api ''u'' ''p'')
     = demo_api"
    using failure_classification
            [where lapi = "login_says ''Server busy''" and n = 0 and uid = "''u''" and pw = "''p''"
               and oauth = oauth_down and tapi = token_down and a = demo_api
               and lib = ascii_library, OF q]
    by (simp add: ascii_library_def ascii_lower_def)
  have s: "(0::nat) < 10" "\<forall>k<0. is_transient (login_silent k ''u'' ''p'')"
    "login_silent 0 ''u'' ''p''
       = LoginResponse ''{}'' (Inr \<lparr>lj_status = Some ''error'', lj_cookies = None, lj_message = None\<rparr>)"
    "\<not> contains ''SOCKSHTTPSConnectionPool'' ''{}''"
    "\<not> login_succeeded \<lparr>lj_status = Some ''error'', lj_cookies = None, lj_message = None\<rparr>"
    by (simp_all add: login_silent_def login_succeeded_def)
  have D: "lr_status (login_with_credentials ascii_library oauth_down token_down login_silent
                  demo_api ''u'' ''p'')
     = ''LOGIN_FAILED''"
    using failure_classification
            [where lapi = login_silent and n = 0 and uid = "''u''" and pw = "''p''"
               and oauth = oauth_down and tapi = token_down and a = demo_api
               and lib = ascii_library, OF s]
      ascii_library_agrees
    by simp
  show ?thesis using A B C D by simp
qed

end
